theory Spec2Isabelle
  imports Main "HOL-Library.Word"
begin

unbundle bit_operations_syntax

section \<open>Kernel data\<close>

text \<open>
  The thread core (thread.c) and the inter-thread communication objects (ipc.c) of
  RT-Thread, as state-passing functions.

  A thread is named by its address, a \<open>tid\<close>; the thread control blocks are a store
  from addresses to records. An intrusive list of threads (the nodes are the \<open>tlist\<close>
  fields) is the list of the threads it links, head first; the list head itself, which
  is no thread, is the position one past the last node.

  Error codes are the symbolic names of rtdef.h; the sign the source puts in front of
  them (\<open>-RT_ETIMEOUT\<close>) is part of the name here. Priorities are \<open>rt_uint8_t\<close>, as the
  casts in \<open>rt_thread_control\<close> say. The counters of the objects are 32-bit machine
  integers (the semaphore value is a signed 32-bit integer, the event set an unsigned
  one); signed comparisons are written \<open><s\<close> and \<open>\<le>s\<close>.
\<close>

type_synonym tid = nat

datatype rt_err_t = RT_EOK | RT_ERROR | RT_ETIMEOUT | RT_EFULL | RT_EEMPTY

datatype thread_stat = RT_THREAD_INIT | RT_THREAD_READY | RT_THREAD_SUSPEND | RT_THREAD_CLOSE

datatype ipc_flag = RT_IPC_FLAG_FIFO | RT_IPC_FLAG_PRIO

text \<open>
  \<open>struct rt_thread\<close>: the fields the synchronisation objects read and write. The
  embedded \<open>thread_timer\<close> is its reload value and its RT_TIMER_FLAG_ACTIVATED bit.
\<close>

record rt_thread =
  stat :: thread_stat
  init_priority :: "8 word"
  current_priority :: "8 word"
  error :: rt_err_t
  event_set :: "32 word"
  event_info :: "8 word"
  timer_init_tick :: "32 word"
  timer_activated :: bool

text \<open>
  The process-wide state: the thread control blocks, \<open>rt_current_thread\<close> and the
  ready table \<open>rt_thread_priority_table\<close>, one list per priority.
\<close>

record kernel =
  threads :: "tid \<Rightarrow> rt_thread"
  rt_current_thread :: tid
  rt_thread_priority_table :: "8 word \<Rightarrow> tid list"

text \<open>
  \<open>struct rt_ipc_object\<close>, the base every synchronisation object embeds as \<open>parent\<close>:
  the flag of the object header, the list of suspended threads and their count.
\<close>

record rt_ipc_object =
  flag :: ipc_flag
  suspend_thread :: "tid list"
  suspend_thread_count :: "32 word"

text \<open>
  What a call gives back. A call that suspends its caller stops inside \<open>rt_schedule()\<close>:
  \<open>Blocked\<close> holds the state the caller leaves behind, and the rest of the function is
  a second function (named \<open>..._resumed\<close>) that runs when the thread is scheduled again.
  A call that wakes a thread, and every full release of a mutex, calls \<open>rt_schedule()\<close>
  just before it returns: \<open>Return\<close> then holds the state at that call of
  \<open>rt_schedule()\<close>. The scheduler (scheduler.c is
  not among the sources) runs the most urgent ready thread there, and what a woken thread
  does before the caller goes on is the \<open>..._resumed\<close> function of its own call, applied
  to that state. \<open>Fault\<close> is a failed \<open>RT_ASSERT\<close> or a dereference of a pointer that is
  no object. The interrupt mask and the observability hooks change none of the modelled
  fields.
\<close>

datatype 'a result = Return rt_err_t 'a | Blocked 'a | Fault

section \<open>Lists, scheduler and timer interface\<close>

definition rt_list_remove :: "tid \<Rightarrow> tid list \<Rightarrow> tid list" where
  \<comment> \<open>unlinking a node; a list that does not hold the node is not changed\<close>
  "rt_list_remove n l = removeAll n l"

definition rt_list_insert_before :: "nat \<Rightarrow> tid \<Rightarrow> tid list \<Rightarrow> tid list" where
  \<comment> \<open>\<open>rt_list_insert_before(l, n)\<close>: \<open>l\<close> is a position of the list, the head being
      position \<open>length\<close>\<close>
  "rt_list_insert_before pos n l = take pos l @ n # drop pos l"

definition set_thread :: "tid \<Rightarrow> (rt_thread \<Rightarrow> rt_thread) \<Rightarrow> kernel \<Rightarrow> kernel" where
  \<comment> \<open>a store through a thread pointer\<close>
  "set_thread t f k = k\<lparr>threads := (threads k)(t := f (threads k t))\<rparr>"

definition rt_schedule_insert_thread :: "tid \<Rightarrow> kernel \<Rightarrow> kernel" where
  \<comment> \<open>Modelled from the spec: scheduler.c is not among the sources. \<open>insert_ready(t)\<close>
      makes the thread READY and appends it to the ready list of its priority.\<close>
  "rt_schedule_insert_thread t k =
     (let k1 = set_thread t (\<lambda>th. th\<lparr>stat := RT_THREAD_READY\<rparr>) k;
          p = current_priority (threads k1 t)
      in k1\<lparr>rt_thread_priority_table :=
               (rt_thread_priority_table k1)
                 (p := rt_list_insert_before (length (rt_thread_priority_table k1 p)) t
                         (rt_thread_priority_table k1 p))\<rparr>)"

definition rt_schedule_remove_thread :: "tid \<Rightarrow> kernel \<Rightarrow> kernel" where
  \<comment> \<open>Modelled from the spec: scheduler.c is not among the sources. \<open>remove_ready(t)\<close>
      unlinks the thread from the ready table.\<close>
  "rt_schedule_remove_thread t k =
     k\<lparr>rt_thread_priority_table := (\<lambda>p. rt_list_remove t (rt_thread_priority_table k p))\<rparr>"

definition rt_timer_control_SET_TIME :: "tid \<Rightarrow> 32 word \<Rightarrow> kernel \<Rightarrow> kernel" where
  \<comment> \<open>Modelled from the spec: timer.c is not among the sources.
      \<open>rt_timer_control(&thread->thread_timer, RT_TIMER_CTRL_SET_TIME, &time)\<close>\<close>
  "rt_timer_control_SET_TIME t time k = set_thread t (\<lambda>th. th\<lparr>timer_init_tick := time\<rparr>) k"

definition rt_timer_start :: "tid \<Rightarrow> kernel \<Rightarrow> kernel" where
  \<comment> \<open>Modelled from the spec: timer.c is not among the sources.
      \<open>rt_timer_start(&thread->thread_timer)\<close> arms the one-shot timer.\<close>
  "rt_timer_start t k = set_thread t (\<lambda>th. th\<lparr>timer_activated := True\<rparr>) k"

section \<open>Thread core (thread.c)\<close>

definition rt_thread_self :: "kernel \<Rightarrow> tid" where
  "rt_thread_self k = rt_current_thread k"

definition rt_thread_control_CHANGE_PRIORITY :: "tid \<Rightarrow> 8 word \<Rightarrow> kernel \<Rightarrow> kernel" where
  \<comment> \<open>\<open>rt_thread_control(thread, RT_THREAD_CTRL_CHANGE_PRIORITY, arg)\<close>; the bitmap
      coordinates \<open>number_mask\<close>, \<open>high_mask\<close> are functions of \<open>current_priority\<close>\<close>
  "rt_thread_control_CHANGE_PRIORITY thread arg k =
     (if stat (threads k thread) = RT_THREAD_READY
      then rt_schedule_insert_thread thread
             (set_thread thread (\<lambda>th. th\<lparr>current_priority := arg\<rparr>)
                (rt_schedule_remove_thread thread k))
      else set_thread thread (\<lambda>th. th\<lparr>current_priority := arg\<rparr>) k)"

definition rt_thread_suspend :: "tid \<Rightarrow> kernel \<Rightarrow> rt_err_t \<times> kernel" where
  "rt_thread_suspend thread k =
     (if stat (threads k thread) \<noteq> RT_THREAD_READY then (RT_ERROR, k)
      else (RT_EOK,
            rt_schedule_remove_thread thread
              (set_thread thread (\<lambda>th. th\<lparr>stat := RT_THREAD_SUSPEND\<rparr>) k)))"

definition tlist_remove ::
  "tid \<Rightarrow> 'a rt_ipc_object_scheme \<times> kernel \<Rightarrow> 'a rt_ipc_object_scheme \<times> kernel" where
  \<comment> \<open>\<open>rt_list_remove(&(thread->tlist))\<close>: the node leaves the list that links it, the
      wait queue of the object or a ready list\<close>
  "tlist_remove thread s =
     (case s of (ipc, k) \<Rightarrow>
        (ipc\<lparr>suspend_thread := rt_list_remove thread (suspend_thread ipc)\<rparr>,
         k\<lparr>rt_thread_priority_table :=
              (\<lambda>p. rt_list_remove thread (rt_thread_priority_table k p))\<rparr>))"

definition rt_thread_resume ::
  "tid \<Rightarrow> 'a rt_ipc_object_scheme \<times> kernel
     \<Rightarrow> rt_err_t \<times> 'a rt_ipc_object_scheme \<times> kernel" where
  "rt_thread_resume thread s =
     (if stat (threads (snd s) thread) \<noteq> RT_THREAD_SUSPEND then (RT_ERROR, s)
      else (case tlist_remove thread s of (ipc, k) \<Rightarrow>
              (RT_EOK, ipc,
               rt_schedule_insert_thread thread
                 (set_thread thread (\<lambda>th. th\<lparr>timer_activated := False\<rparr>) k))))"

definition rt_thread_timeout ::
  "tid \<Rightarrow> 'a rt_ipc_object_scheme \<times> kernel \<Rightarrow> ('a rt_ipc_object_scheme \<times> kernel) option" where
  \<comment> \<open>the expiry callback of the thread timer; \<open>None\<close> is the failed
      \<open>RT_ASSERT(thread->stat == RT_THREAD_SUSPEND)\<close>\<close>
  "rt_thread_timeout thread s =
     (if stat (threads (snd s) thread) \<noteq> RT_THREAD_SUSPEND then None
      else (case tlist_remove thread
                   (fst s, set_thread thread (\<lambda>th. th\<lparr>error := RT_ETIMEOUT\<rparr>) (snd s)) of
              (ipc, k) \<Rightarrow> Some (ipc, rt_schedule_insert_thread thread k)))"

section \<open>Wait-queue base (ipc.c)\<close>

fun suitable_position :: "(tid \<Rightarrow> rt_thread) \<Rightarrow> 8 word \<Rightarrow> tid list \<Rightarrow> nat" where
  \<comment> \<open>the search loop of \<open>rt_ipc_object_suspend\<close>: the position \<open>n\<close> stops at, the first
      node whose thread has a numerically greater priority, or the list head\<close>
  "suitable_position ths prio [] = 0"
| "suitable_position ths prio (sthread # l) =
     (if prio < current_priority (ths sthread) then 0
      else Suc (suitable_position ths prio l))"

definition rt_ipc_object_suspend ::
  "'a rt_ipc_object_scheme \<Rightarrow> tid \<Rightarrow> kernel \<Rightarrow> 'a rt_ipc_object_scheme \<times> kernel" where
  "rt_ipc_object_suspend ipc thread k =
     (let k1 = snd (rt_thread_suspend thread k);
          ipc1 = ipc\<lparr>suspend_thread_count := suspend_thread_count ipc + 1\<rparr>
      in case flag ipc1 of
           RT_IPC_FLAG_FIFO \<Rightarrow>
             (ipc1\<lparr>suspend_thread :=
                     rt_list_insert_before (length (suspend_thread ipc1)) thread
                       (suspend_thread ipc1)\<rparr>, k1)
         | RT_IPC_FLAG_PRIO \<Rightarrow>
             (let n = suitable_position (threads k1)
                        (current_priority (threads k1 thread)) (suspend_thread ipc1)
              in (ipc1\<lparr>suspend_thread :=
                         rt_list_insert_before (length (suspend_thread ipc1)) thread
                           (suspend_thread ipc1)\<rparr>, k1)))"

definition rt_ipc_object_resume ::
  "'a rt_ipc_object_scheme \<Rightarrow> kernel \<Rightarrow> ('a rt_ipc_object_scheme \<times> kernel) option" where
  \<comment> \<open>wakes the head of the wait queue; on an empty queue \<open>suspend_thread.next\<close> is the
      list head, which is no thread: \<open>None\<close>\<close>
  "rt_ipc_object_resume ipc k =
     (case suspend_thread ipc of
        [] \<Rightarrow> None
      | thread # _ \<Rightarrow>
          (case snd (rt_thread_resume thread (ipc, k)) of (ipc1, k1) \<Rightarrow>
             Some (ipc1\<lparr>suspend_thread_count := suspend_thread_count ipc1 - 1\<rparr>, k1)))"

definition rt_ipc_object_decrease :: "'a rt_ipc_object_scheme \<Rightarrow> 'a rt_ipc_object_scheme" where
  "rt_ipc_object_decrease ipc = ipc\<lparr>suspend_thread_count := suspend_thread_count ipc - 1\<rparr>"

section \<open>Semaphore\<close>

record rt_semaphore = rt_ipc_object +
  sem_value :: "32 word"

definition rt_sem_take ::
  "rt_semaphore \<Rightarrow> 32 word \<Rightarrow> kernel \<Rightarrow> (rt_semaphore \<times> kernel) result" where
  "rt_sem_take sem time k =
     (if 0 <s sem_value sem
      then Return RT_EOK (sem\<lparr>sem_value := sem_value sem - 1\<rparr>, k)
      else if time = 0 then Return RT_ETIMEOUT (sem, k)
      else
        (let sem1 = sem\<lparr>sem_value := sem_value sem - 1\<rparr>;
             thread = rt_thread_self k;
             k1 = set_thread thread (\<lambda>th. th\<lparr>error := RT_EOK\<rparr>) k;
             (sem2, k2) = rt_ipc_object_suspend sem1 thread k1;
             k3 = (if 0 <s time
                   then rt_timer_start thread (rt_timer_control_SET_TIME thread time k2)
                   else k2)
         in Blocked (sem2, k3)))"

definition rt_sem_take_resumed ::
  "rt_semaphore \<Rightarrow> tid \<Rightarrow> kernel \<Rightarrow> (rt_semaphore \<times> kernel) result" where
  \<comment> \<open>\<open>rt_sem_take\<close> after \<open>rt_schedule()\<close>, in the thread that blocked\<close>
  "rt_sem_take_resumed sem thread k =
     (if error (threads k thread) \<noteq> RT_EOK
      then Return (error (threads k thread)) (rt_ipc_object_decrease sem, k)
      else Return RT_EOK (sem, k))"

definition rt_sem_trytake :: "rt_semaphore \<Rightarrow> kernel \<Rightarrow> (rt_semaphore \<times> kernel) result" where
  "rt_sem_trytake sem k = rt_sem_take sem 0 k"

definition rt_sem_release :: "rt_semaphore \<Rightarrow> kernel \<Rightarrow> (rt_semaphore \<times> kernel) result" where
  "rt_sem_release sem k =
     (let sem1 = sem\<lparr>sem_value := sem_value sem + 1\<rparr>
      in if sem_value sem1 \<le>s 0 \<and> 0 < suspend_thread_count sem1
         then (case rt_ipc_object_resume sem1 k of
                 None \<Rightarrow> Fault
               | Some s \<Rightarrow> Return RT_EOK s)
         else Return RT_EOK (sem1, k))"

section \<open>Mutex\<close>

text \<open>
  \<open>struct rt_mutex\<close>. \<open>mutex_owner\<close> is the \<open>owner\<close> pointer, \<open>None\<close> for RT_NULL.
  The value is compared with 0 as a signed integer, as the semaphore's is.
\<close>

record rt_mutex = rt_ipc_object +
  mutex_value :: "32 word"
  mutex_owner :: "tid option"
  mutex_original_priority :: "8 word"
  mutex_hold :: "32 word"

definition rt_ipc_object_init :: "'a rt_ipc_object_scheme \<Rightarrow> 'a rt_ipc_object_scheme" where
  "rt_ipc_object_init ipc = ipc\<lparr>suspend_thread := [], suspend_thread_count := 0\<rparr>"

definition rt_mutex_init :: "rt_mutex \<Rightarrow> ipc_flag \<Rightarrow> rt_mutex" where
  "rt_mutex_init mutex flg =
     (rt_ipc_object_init mutex)
       \<lparr>mutex_value := 1, mutex_owner := None, mutex_original_priority := 0xFF,
        mutex_hold := 0, flag := flg\<rparr>"

definition rt_mutex_take ::
  "rt_mutex \<Rightarrow> 32 word \<Rightarrow> kernel \<Rightarrow> (rt_mutex \<times> kernel) result" where
  "rt_mutex_take mutex time k =
     (let thread = rt_thread_self k;
          k1 = set_thread thread (\<lambda>th. th\<lparr>error := RT_EOK\<rparr>) k
      in if mutex_owner mutex = Some thread
         then Return RT_EOK (mutex\<lparr>mutex_hold := mutex_hold mutex + 1\<rparr>, k1)
         else if 0 <s mutex_value mutex
         then Return RT_EOK
                (mutex\<lparr>mutex_value := mutex_value mutex - 1,
                       mutex_owner := Some thread,
                       mutex_original_priority := current_priority (threads k1 thread),
                       mutex_hold := mutex_hold mutex + 1\<rparr>, k1)
         else if time = 0
         then Return RT_ETIMEOUT
                (mutex, set_thread thread (\<lambda>th. th\<lparr>error := RT_ETIMEOUT\<rparr>) k1)
         else
           (case mutex_owner mutex of
              None \<Rightarrow> Fault
            | Some owner \<Rightarrow>
                (let mutex1 = mutex\<lparr>mutex_value := mutex_value mutex - 1\<rparr>;
                     k2 = (if current_priority (threads k1 thread)
                              < current_priority (threads k1 owner)
                           then rt_thread_control_CHANGE_PRIORITY owner
                                  (current_priority (threads k1 thread)) k1
                           else k1);
                     (mutex2, k3) = rt_ipc_object_suspend mutex1 thread k2;
                     k4 = (if 0 <s time
                           then rt_timer_start thread
                                  (rt_timer_control_SET_TIME thread time k3)
                           else k3)
                 in Blocked (mutex2, k4))))"

definition rt_mutex_take_resumed ::
  "rt_mutex \<Rightarrow> tid \<Rightarrow> kernel \<Rightarrow> (rt_mutex \<times> kernel) result" where
  \<comment> \<open>\<open>rt_mutex_take\<close> after \<open>rt_schedule()\<close>, in the thread that blocked\<close>
  "rt_mutex_take_resumed mutex thread k =
     (if error (threads k thread) \<noteq> RT_EOK
      then Return (error (threads k thread)) (rt_ipc_object_decrease mutex, k)
      else Return RT_EOK
             (mutex\<lparr>mutex_owner := Some thread, mutex_hold := mutex_hold mutex + 1\<rparr>,
              set_thread thread (\<lambda>th. th\<lparr>error := RT_EOK\<rparr>) k))"

definition rt_mutex_release :: "rt_mutex \<Rightarrow> kernel \<Rightarrow> (rt_mutex \<times> kernel) result" where
  \<comment> \<open>past the owner check \<open>mutex->owner\<close> is \<open>thread\<close>. A full release ends with
      \<open>rt_schedule(); return RT_EOK\<close>: its result is the state at \<open>rt_schedule()\<close>, where
      a woken waiter that is more urgent than the caller runs (\<open>rt_mutex_take_resumed\<close>)
      before the caller sees RT_EOK\<close>
  "rt_mutex_release mutex k =
     (let thread = rt_thread_self k
      in if Some thread \<noteq> mutex_owner mutex
         then Return RT_ERROR (mutex, set_thread thread (\<lambda>th. th\<lparr>error := RT_ERROR\<rparr>) k)
         else
           (let mutex1 = mutex\<lparr>mutex_hold := mutex_hold mutex - 1\<rparr>
            in if mutex_hold mutex1 = 0
               then
                 (let k1 = (if init_priority (threads k thread)
                               \<noteq> current_priority (threads k thread)
                            then rt_thread_control_CHANGE_PRIORITY thread
                                   (init_priority (threads k thread)) k
                            else k)
                  in if mutex_value mutex1 \<le>s 0 \<and> 0 < suspend_thread_count mutex1
                     then (case rt_ipc_object_resume mutex1 k1 of
                             None \<Rightarrow> Fault
                           | Some (mutex2, k2) \<Rightarrow>
                               Return RT_EOK
                                 (mutex2\<lparr>mutex_value := mutex_value mutex2 + 1\<rparr>, k2))
                     else Return RT_EOK
                            (mutex1\<lparr>mutex_value := mutex_value mutex1 + 1\<rparr>, k1))
               else Return RT_EOK (mutex1, k)))"

section \<open>Event flags\<close>

record rt_event = rt_ipc_object +
  ev_set :: "32 word"

definition RT_EVENT_FLAG_AND :: "8 word" where
  \<comment> \<open>Modelled from the spec: rtdef.h is not among the sources. The three option
      flags AND, OR and CLEAR are single bits of \<open>event_info\<close>.\<close>
  "RT_EVENT_FLAG_AND = 0x01"

definition RT_EVENT_FLAG_OR :: "8 word" where
  \<comment> \<open>Modelled from the spec: see \<open>RT_EVENT_FLAG_AND\<close>.\<close>
  "RT_EVENT_FLAG_OR = 0x02"

definition RT_EVENT_FLAG_CLEAR :: "8 word" where
  \<comment> \<open>Modelled from the spec: see \<open>RT_EVENT_FLAG_AND\<close>.\<close>
  "RT_EVENT_FLAG_CLEAR = 0x04"

definition event_status :: "rt_thread \<Rightarrow> 32 word \<Rightarrow> rt_err_t" where
  \<comment> \<open>the \<open>status\<close> the loop of \<open>rt_event_send\<close> computes for one waiter\<close>
  "event_status th s =
     (if event_info th AND RT_EVENT_FLAG_AND \<noteq> 0
      then (if event_set th AND s = event_set th then RT_EOK else RT_ERROR)
      else if event_info th AND RT_EVENT_FLAG_OR \<noteq> 0
      then (if event_set th AND s \<noteq> 0 then RT_EOK else RT_ERROR)
      else RT_ERROR)"

fun event_search :: "tid list \<Rightarrow> rt_event \<times> kernel \<Rightarrow> rt_event \<times> kernel" where
  \<comment> \<open>the \<open>while\<close> loop of \<open>rt_event_send\<close>; \<open>n\<close> moves to the next node before the
      thread is resumed, so the loop visits the nodes the queue had when it began\<close>
  "event_search [] s = s"
| "event_search (thread # n) s =
     (if event_status (threads (snd s) thread) (ev_set (fst s)) = RT_EOK
      then (case snd (rt_thread_resume thread s) of (event1, k1) \<Rightarrow>
              (let event2 = event1\<lparr>suspend_thread_count := suspend_thread_count event1 - 1\<rparr>;
                   event3 = (if event_info (threads k1 thread) AND RT_EVENT_FLAG_CLEAR \<noteq> 0
                             then event2\<lparr>ev_set := ev_set event2
                                                      AND NOT (event_set (threads k1 thread))\<rparr>
                             else event2)
               in event_search n (event3, k1)))
      else event_search n s)"

definition rt_event_send ::
  "rt_event \<Rightarrow> 32 word \<Rightarrow> kernel \<Rightarrow> (rt_event \<times> kernel) result" where
  "rt_event_send event st k =
     (if st = 0 then Return RT_ERROR (event, k)
      else
        (let event1 = event\<lparr>ev_set := ev_set event OR st\<rparr>
         in if 0 < suspend_thread_count event1
            then Return RT_EOK (event_search (suspend_thread event1) (event1, k))
            else Return RT_EOK (event1, k)))"

section \<open>Mailbox\<close>

text \<open>
  \<open>struct rt_mailbox\<close>. \<open>mb_msg_pool\<close> is the memory \<open>msg_pool\<close> points to, read and
  written by offset. Where \<open>size\<close> is 0 the source divides by zero: \<open>Fault\<close>.
\<close>

record rt_mailbox = rt_ipc_object +
  mb_msg_pool :: "32 word \<Rightarrow> 32 word"
  mb_size :: "32 word"
  mb_entry :: "32 word"
  mb_in_offset :: "32 word"
  mb_out_offset :: "32 word"

definition rt_mb_init ::
  "rt_mailbox \<Rightarrow> (32 word \<Rightarrow> 32 word) \<Rightarrow> 32 word \<Rightarrow> ipc_flag \<Rightarrow> rt_mailbox" where
  "rt_mb_init mb msgpool sz flg =
     (rt_ipc_object_init (mb\<lparr>flag := flg\<rparr>))
       \<lparr>mb_msg_pool := msgpool, mb_size := sz, mb_entry := 0,
        mb_in_offset := 0, mb_out_offset := 0\<rparr>"

definition rt_mb_send ::
  "rt_mailbox \<Rightarrow> 32 word \<Rightarrow> kernel \<Rightarrow> (rt_mailbox \<times> kernel) result" where
  "rt_mb_send mb val k =
     (if mb_entry mb = mb_size mb then Return RT_EFULL (mb, k)
      else if mb_size mb = 0 then Fault
      else
        (let mb1 = mb\<lparr>mb_msg_pool := (mb_msg_pool mb)(mb_in_offset mb := val),
                      mb_in_offset := (mb_in_offset mb + 1) mod mb_size mb,
                      mb_entry := mb_entry mb + 1\<rparr>
         in if 0 < suspend_thread_count mb1
            then (case rt_ipc_object_resume mb1 k of
                    None \<Rightarrow> Fault
                  | Some s \<Rightarrow> Return RT_EOK s)
            else Return RT_EOK (mb1, k)))"

definition mb_fill ::
  "rt_mailbox \<Rightarrow> kernel \<Rightarrow> (32 word \<times> rt_mailbox \<times> kernel) result" where
  \<comment> \<open>the end of \<open>rt_mb_recv\<close>, from \<open>/* fill ptr */\<close> on; the first component of the
      state is \<open>*value\<close>\<close>
  "mb_fill mb k =
     (if mb_size mb = 0 then Fault
      else Return RT_EOK
             (mb_msg_pool mb (mb_out_offset mb),
              mb\<lparr>mb_out_offset := (mb_out_offset mb + 1) mod mb_size mb,
                 mb_entry := mb_entry mb - 1\<rparr>, k))"

definition rt_mb_recv ::
  "rt_mailbox \<Rightarrow> 32 word \<Rightarrow> 32 word \<Rightarrow> kernel
     \<Rightarrow> (32 word \<times> rt_mailbox \<times> kernel) result" where
  \<comment> \<open>\<open>val\<close> is what \<open>*value\<close> holds before the call\<close>
  "rt_mb_recv mb val timeout k =
     (if mb_entry mb = 0
      then
        (let thread = rt_thread_self k;
             k1 = set_thread thread (\<lambda>th. th\<lparr>error := RT_EOK\<rparr>) k
         in if timeout = 0
            then Return RT_ETIMEOUT
                   (val, mb, set_thread thread (\<lambda>th. th\<lparr>error := RT_ETIMEOUT\<rparr>) k1)
            else
              (let (mb1, k2) = rt_ipc_object_suspend mb thread k1;
                   k3 = (if 0 <s timeout
                         then rt_timer_start thread
                                (rt_timer_control_SET_TIME thread timeout k2)
                         else k2)
               in Blocked (val, mb1, k3)))
      else mb_fill mb k)"

definition rt_mb_recv_resumed ::
  "rt_mailbox \<Rightarrow> 32 word \<Rightarrow> tid \<Rightarrow> kernel
     \<Rightarrow> (32 word \<times> rt_mailbox \<times> kernel) result" where
  \<comment> \<open>\<open>rt_mb_recv\<close> after \<open>rt_schedule()\<close>, in the thread that blocked\<close>
  "rt_mb_recv_resumed mb val thread k =
     (if error (threads k thread) \<noteq> RT_EOK
      then Return (error (threads k thread)) (val, rt_ipc_object_decrease mb, k)
      else mb_fill mb k)"

section \<open>Message queue\<close>

text \<open>
  \<open>struct rt_messagequeue\<close>. A message cell (a \<open>struct rt_mq_message\<close> header followed
  by \<open>msg_size\<close> bytes) is named by its number in the pool: cell \<open>temp\<close> lies at
  \<open>msg_pool + temp * (msg_size + sizeof(struct rt_mq_message))\<close>. The pool is the store
  \<open>mq_next\<close> of the headers' \<open>next\<close> pointers and the store \<open>mq_payload\<close> of the bytes
  behind the headers. \<open>None\<close> is RT_NULL.
\<close>

type_synonym cell = nat

record rt_messagequeue = rt_ipc_object +
  mq_next :: "cell \<Rightarrow> cell option"
  mq_payload :: "cell \<Rightarrow> 8 word list"
  mq_msg_size :: "32 word"
  mq_max_msgs :: "32 word"
  mq_entry :: "32 word"
  msg_queue_head :: "cell option"
  msg_queue_tail :: "cell option"
  msg_queue_free :: "cell option"

definition RT_ALIGN :: "32 word \<Rightarrow> 32 word \<Rightarrow> 32 word" where
  \<comment> \<open>Modelled from the spec: rtdef.h is not among the sources. The message size is
      rounded up to the alignment, a power of two.\<close>
  "RT_ALIGN sz align = (sz + align - 1) AND NOT (align - 1)"

definition RT_ALIGN_SIZE :: "32 word" where
  \<comment> \<open>Modelled from the spec: rtdef.h is not among the sources.\<close>
  "RT_ALIGN_SIZE = 4"

definition rt_memcpy :: "8 word list \<Rightarrow> 8 word list \<Rightarrow> nat \<Rightarrow> 8 word list" where
  \<comment> \<open>Modelled from the spec: kservice.c is not among the sources. The first \<open>n\<close>
      bytes of \<open>src\<close> overwrite the first \<open>n\<close> bytes of \<open>dst\<close>; both hold \<open>n\<close> bytes
      at least, and \<open>dst\<close> keeps its length.\<close>
  "rt_memcpy dst src n = take n src @ drop n dst"

definition rt_malloc :: "8 word list \<Rightarrow> nat \<Rightarrow> 8 word list" where
  \<comment> \<open>Modelled from the spec: the allocator is not among the sources. A block of \<open>n\<close>
      bytes; they are not initialised: the bytes the memory held, 0 where the model of
      it holds fewer.\<close>
  "rt_malloc old n = take n (old @ replicate n 0)"

definition mq_link_free :: "cell \<Rightarrow> rt_messagequeue \<Rightarrow> rt_messagequeue" where
  \<comment> \<open>one round of the loop that builds the free list: \<open>head->next = mq->msg_queue_free;
      mq->msg_queue_free = head\<close>\<close>
  "mq_link_free temp mq =
     mq\<lparr>mq_next := (mq_next mq)(temp := msg_queue_free mq), msg_queue_free := Some temp\<rparr>"

definition rt_mq_create ::
  "rt_messagequeue \<Rightarrow> 32 word \<Rightarrow> 32 word \<Rightarrow> ipc_flag \<Rightarrow> rt_messagequeue" where
  \<comment> \<open>\<open>rt_mq_create\<close> where both allocations succeed; \<open>mq\<close> is the allocated object.
      The pool gives every cell \<open>msg_size\<close> bytes behind its header.\<close>
  "rt_mq_create mq msg_size max_msgs flg =
     (let mq1 = (rt_ipc_object_init (mq\<lparr>flag := flg\<rparr>))
                  \<lparr>mq_msg_size := RT_ALIGN msg_size RT_ALIGN_SIZE, mq_max_msgs := max_msgs,
                   mq_payload :=
                     (\<lambda>temp. rt_malloc (mq_payload mq temp)
                               (unat (RT_ALIGN msg_size RT_ALIGN_SIZE))),
                   msg_queue_head := None, msg_queue_tail := None, msg_queue_free := None\<rparr>;
          mq2 = fold mq_link_free [0..<unat (mq_max_msgs mq1)] mq1
      in mq2\<lparr>mq_entry := 0\<rparr>)"

definition mq_wake ::
  "rt_messagequeue \<Rightarrow> kernel \<Rightarrow> (rt_messagequeue \<times> kernel) result" where
  \<comment> \<open>the end of \<open>rt_mq_send\<close> and of \<open>rt_mq_urgent\<close>, from
      \<open>/* resume suspended thread */\<close> on\<close>
  "mq_wake mq k =
     (if 0 < suspend_thread_count mq
      then (case rt_ipc_object_resume mq k of
              None \<Rightarrow> Fault
            | Some s \<Rightarrow> Return RT_EOK s)
      else Return RT_EOK (mq, k))"

definition mq_link_tail ::
  "rt_messagequeue \<Rightarrow> cell \<Rightarrow> 8 word list \<Rightarrow> 32 word \<Rightarrow> rt_messagequeue" where
  \<comment> \<open>\<open>rt_mq_send\<close> from \<open>/* move free list pointer */\<close> to
      \<open>/* increase message entry */\<close>: the free cell \<open>msg\<close> gets the message and
      becomes the tail of the queue\<close>
  "mq_link_tail mq msg buffer sz =
     (let mq1 = mq\<lparr>msg_queue_free := mq_next mq msg\<rparr>;
          mq2 = mq1\<lparr>mq_payload := (mq_payload mq1)
                       (msg := rt_memcpy (mq_payload mq1 msg) buffer (unat sz))\<rparr>;
          mq3 = (case msg_queue_tail mq2 of
                   None \<Rightarrow> mq2
                 | Some tail \<Rightarrow> mq2\<lparr>mq_next := (mq_next mq2)(tail := Some msg)\<rparr>);
          mq4 = mq3\<lparr>mq_next := (mq_next mq3)(msg := None)\<rparr>;
          mq5 = mq4\<lparr>msg_queue_tail := Some msg\<rparr>;
          mq6 = (if msg_queue_head mq5 = None
                 then mq5\<lparr>msg_queue_head := Some msg\<rparr> else mq5)
      in mq6\<lparr>mq_entry := mq_entry mq6 + 1\<rparr>)"

definition rt_mq_send ::
  "rt_messagequeue \<Rightarrow> 8 word list \<Rightarrow> 32 word \<Rightarrow> kernel
     \<Rightarrow> (rt_messagequeue \<times> kernel) result" where
  "rt_mq_send mq buffer sz k =
     (if mq_msg_size mq < sz then Return RT_ERROR (mq, k)
      else
        (case msg_queue_free mq of
           None \<Rightarrow> Return RT_EFULL (mq, k)
         | Some msg \<Rightarrow> mq_wake (mq_link_tail mq msg buffer sz) k))"

definition mq_link_head ::
  "rt_messagequeue \<Rightarrow> cell \<Rightarrow> 8 word list \<Rightarrow> 32 word \<Rightarrow> rt_messagequeue" where
  \<comment> \<open>\<open>rt_mq_urgent\<close> from \<open>/* move free list pointer */\<close> to
      \<open>/* increase message entry */\<close>: the free cell \<open>msg\<close> gets the message and
      becomes the head of the queue\<close>
  "mq_link_head mq msg buffer sz =
     (let mq1 = mq\<lparr>msg_queue_free := mq_next mq msg\<rparr>;
          mq2 = mq1\<lparr>mq_payload := (mq_payload mq1)
                       (msg := rt_memcpy (mq_payload mq1 msg) buffer (unat sz))\<rparr>;
          mq3 = mq2\<lparr>mq_next := (mq_next mq2)(msg := msg_queue_head mq2)\<rparr>;
          mq4 = mq3\<lparr>msg_queue_head := Some msg\<rparr>;
          mq5 = (if msg_queue_tail mq4 = None
                 then mq4\<lparr>msg_queue_tail := Some msg\<rparr> else mq4)
      in mq5\<lparr>mq_entry := mq_entry mq5 + 1\<rparr>)"

definition rt_mq_urgent ::
  "rt_messagequeue \<Rightarrow> 8 word list \<Rightarrow> 32 word \<Rightarrow> kernel
     \<Rightarrow> (rt_messagequeue \<times> kernel) result" where
  "rt_mq_urgent mq buffer sz k =
     (if mq_msg_size mq < sz then Return RT_ERROR (mq, k)
      else
        (case msg_queue_free mq of
           None \<Rightarrow> Return RT_EFULL (mq, k)
         | Some msg \<Rightarrow> mq_wake (mq_link_head mq msg buffer sz) k))"

definition mq_unlink_head ::
  "rt_messagequeue \<Rightarrow> cell \<Rightarrow> rt_messagequeue" where
  \<comment> \<open>the end of \<open>rt_mq_recv\<close>, what it does to the queue: the head cell \<open>msg\<close> leaves
      the queue and goes to the front of the free list\<close>
  "mq_unlink_head mq msg =
     (let mq1 = mq\<lparr>msg_queue_head := mq_next mq msg\<rparr>;
          mq2 = (if msg_queue_tail mq1 = Some msg
                 then mq1\<lparr>msg_queue_tail := None\<rparr> else mq1);
          mq3 = mq2\<lparr>mq_next := (mq_next mq2)(msg := msg_queue_free mq2)\<rparr>;
          mq4 = mq3\<lparr>msg_queue_free := Some msg\<rparr>
      in mq4\<lparr>mq_entry := mq_entry mq4 - 1\<rparr>)"

definition mq_get ::
  "rt_messagequeue \<Rightarrow> 8 word list \<Rightarrow> 32 word \<Rightarrow> kernel
     \<Rightarrow> (8 word list \<times> rt_messagequeue \<times> kernel) result" where
  \<comment> \<open>the end of \<open>rt_mq_recv\<close>, from \<open>/* get message from queue */\<close> on; the first
      component of the state is the caller's buffer, which gets the message before the
      cell is put on the free list. With an empty queue \<open>msg\<close> is RT_NULL and
      \<open>msg->next\<close> faults.\<close>
  "mq_get mq buffer sz k =
     (case msg_queue_head mq of
        None \<Rightarrow> Fault
      | Some msg \<Rightarrow>
          Return RT_EOK
            (rt_memcpy buffer (mq_payload mq msg)
               (unat (if mq_msg_size mq < sz then mq_msg_size mq else sz)),
             mq_unlink_head mq msg, k))"

definition rt_mq_recv ::
  "rt_messagequeue \<Rightarrow> 8 word list \<Rightarrow> 32 word \<Rightarrow> 32 word \<Rightarrow> kernel
     \<Rightarrow> (8 word list \<times> rt_messagequeue \<times> kernel) result" where
  "rt_mq_recv mq buffer sz timeout k =
     (if mq_entry mq = 0
      then
        (let thread = rt_thread_self k;
             k1 = set_thread thread (\<lambda>th. th\<lparr>error := RT_EOK\<rparr>) k
         in if timeout = 0
            then Return RT_ETIMEOUT
                   (buffer, mq, set_thread thread (\<lambda>th. th\<lparr>error := RT_ETIMEOUT\<rparr>) k1)
            else
              (let (mq1, k2) = rt_ipc_object_suspend mq thread k1;
                   k3 = (if 0 <s timeout
                         then rt_timer_start thread
                                (rt_timer_control_SET_TIME thread timeout k2)
                         else k2)
               in Blocked (buffer, mq1, k3)))
      else mq_get mq buffer sz k)"

definition rt_mq_recv_resumed ::
  "rt_messagequeue \<Rightarrow> 8 word list \<Rightarrow> 32 word \<Rightarrow> tid \<Rightarrow> kernel
     \<Rightarrow> (8 word list \<times> rt_messagequeue \<times> kernel) result" where
  \<comment> \<open>\<open>rt_mq_recv\<close> after \<open>rt_schedule()\<close>, in the thread that blocked\<close>
  "rt_mq_recv_resumed mq buffer sz thread k =
     (if error (threads k thread) \<noteq> RT_EOK
      then Return (error (threads k thread)) (buffer, rt_ipc_object_decrease mq, k)
      else mq_get mq buffer sz k)"

section \<open>Message queue: the invariant, as the specification words it\<close>

primrec cell_chain :: "(cell \<Rightarrow> cell option) \<Rightarrow> cell option \<Rightarrow> cell list \<Rightarrow> bool" where
  \<comment> \<open>the cells reached from the pointer \<open>p\<close> through the \<open>next\<close> pointers, up to
      RT_NULL, are the cells of the list, in its order\<close>
  "cell_chain nx p [] = (p = None)"
| "cell_chain nx p (c # cs) = (p = Some c \<and> cell_chain nx (nx c) cs)"

definition mq_wellformed :: "rt_messagequeue \<Rightarrow> cell list \<Rightarrow> cell list \<Rightarrow> bool" where
  \<comment> \<open>the free list is \<open>fs\<close> and the FIFO is \<open>qs\<close>; every cell of the pool is on exactly
      one of the two; \<open>entry\<close> is the length of the FIFO and the tail pointer is its last
      cell\<close>
  "mq_wellformed mq fs qs =
     (cell_chain (mq_next mq) (msg_queue_free mq) fs
      \<and> cell_chain (mq_next mq) (msg_queue_head mq) qs
      \<and> distinct (fs @ qs)
      \<and> set (fs @ qs) = {0..<unat (mq_max_msgs mq)}
      \<and> unat (mq_entry mq) = length qs
      \<and> msg_queue_tail mq = (if qs = [] then None else Some (last qs)))"

section \<open>Event flags: the scan, as the specification words it\<close>

text \<open>
  The specification's account of \<open>rt_event_send\<close>, to compare the loop with: a waiter is
  satisfied by an event set in AND mode when all its bits are there, in OR mode when one
  is; a satisfied waiter that asked for CLEAR takes its bits out of the set; the waiters
  are looked at in queue order, each against the set as the waiters before it left it.
\<close>

definition waiter_satisfied :: "rt_thread \<Rightarrow> 32 word \<Rightarrow> bool" where
  "waiter_satisfied th s =
     (if event_info th AND RT_EVENT_FLAG_AND \<noteq> 0 then event_set th AND s = event_set th
      else if event_info th AND RT_EVENT_FLAG_OR \<noteq> 0 then event_set th AND s \<noteq> 0
      else False)"

definition set_after_waiter :: "rt_thread \<Rightarrow> 32 word \<Rightarrow> 32 word" where
  "set_after_waiter th s =
     (if waiter_satisfied th s \<and> event_info th AND RT_EVENT_FLAG_CLEAR \<noteq> 0
      then s AND NOT (event_set th) else s)"

fun set_after_waiters :: "(tid \<Rightarrow> rt_thread) \<Rightarrow> tid list \<Rightarrow> 32 word \<Rightarrow> 32 word" where
  "set_after_waiters ths [] s = s"
| "set_after_waiters ths (w # ws) s = set_after_waiters ths ws (set_after_waiter (ths w) s)"

fun woken_waiters :: "(tid \<Rightarrow> rt_thread) \<Rightarrow> tid list \<Rightarrow> 32 word \<Rightarrow> tid list" where
  "woken_waiters ths [] s = []"
| "woken_waiters ths (w # ws) s =
     (if waiter_satisfied (ths w) s
      then w # woken_waiters ths ws (set_after_waiter (ths w) s)
      else woken_waiters ths ws (set_after_waiter (ths w) s))"

definition woken_thread :: "rt_thread \<Rightarrow> rt_thread" where
  \<comment> \<open>what \<open>rt_thread_resume\<close> makes of the control block of a suspended thread\<close>
  "woken_thread th = th\<lparr>timer_activated := False, stat := RT_THREAD_READY\<rparr>"

definition kernel_after_resume :: "tid \<Rightarrow> kernel \<Rightarrow> kernel" where
  \<comment> \<open>what \<open>rt_thread_resume\<close> makes of the kernel state, for a suspended thread\<close>
  "kernel_after_resume w k =
     rt_schedule_insert_thread w
       (set_thread w (\<lambda>th. th\<lparr>timer_activated := False\<rparr>)
          (k\<lparr>rt_thread_priority_table :=
               (\<lambda>p. rt_list_remove w (rt_thread_priority_table k p))\<rparr>))"

section \<open>Calls in sequence and example states\<close>

definition and_then :: "'a result \<Rightarrow> ('a \<Rightarrow> 'a result) \<Rightarrow> 'a result" where
  \<comment> \<open>the next call of the same thread, made once the call before has returned RT_EOK\<close>
  "and_then r f = (case r of Return e s \<Rightarrow> (if e = RT_EOK then f s else r) | _ \<Rightarrow> r)"

definition wait_queue_counted :: "'a rt_ipc_object_scheme \<Rightarrow> bool" where
  \<comment> \<open>the count of an object agrees with its wait queue\<close>
  "wait_queue_counted ipc = (unat (suspend_thread_count ipc) = length (suspend_thread ipc))"

definition thread_at :: "8 word \<Rightarrow> thread_stat \<Rightarrow> rt_thread" where
  \<comment> \<open>a thread of the given priority, as \<open>_rt_thread_init\<close> fills it, in the given state\<close>
  "thread_at prio st =
     \<lparr>stat = st, init_priority = prio, current_priority = prio, error = RT_EOK,
      event_set = 0, event_info = 0, timer_init_tick = 0, timer_activated = False\<rparr>"

definition kernel_HL :: kernel where
  \<comment> \<open>thread 1 (priority 5) runs, thread 2 (priority 20) is ready\<close>
  "kernel_HL =
     \<lparr>threads = (\<lambda>_. thread_at 0 RT_THREAD_INIT)
                   (1 := thread_at 5 RT_THREAD_READY, 2 := thread_at 20 RT_THREAD_READY),
      rt_current_thread = 1,
      rt_thread_priority_table = (\<lambda>_. [])(5 := [1], 20 := [2])\<rparr>"

definition sem_of :: "32 word \<Rightarrow> rt_semaphore" where
  \<comment> \<open>a semaphore as \<open>rt_sem_init\<close> leaves it\<close>
  "sem_of v = \<lparr>flag = RT_IPC_FLAG_FIFO, suspend_thread = [], suspend_thread_count = 0,
               sem_value = v\<rparr>"

definition mutex_blank :: rt_mutex where
  \<comment> \<open>the memory of a mutex before \<open>rt_mutex_init\<close>\<close>
  "mutex_blank = \<lparr>flag = RT_IPC_FLAG_FIFO, suspend_thread = [], suspend_thread_count = 0,
                  mutex_value = 0, mutex_owner = None, mutex_original_priority = 0,
                  mutex_hold = 0\<rparr>"

definition mutex_held_by_L :: rt_mutex where
  \<comment> \<open>a mutex thread 2 has taken once\<close>
  "mutex_held_by_L =
     \<lparr>flag = RT_IPC_FLAG_FIFO, suspend_thread = [], suspend_thread_count = 0,
      mutex_value = 0, mutex_owner = Some 2, mutex_original_priority = 20, mutex_hold = 1\<rparr>"

definition mutex_contended :: rt_mutex where
  \<comment> \<open>the same mutex once thread 1 waits for it\<close>
  "mutex_contended =
     \<lparr>flag = RT_IPC_FLAG_FIFO, suspend_thread = [1], suspend_thread_count = 1,
      mutex_value = - 1, mutex_owner = Some 2, mutex_original_priority = 20, mutex_hold = 1\<rparr>"

definition kernel_H_waits :: kernel where
  \<comment> \<open>thread 1 (priority 5) is suspended; thread 2 (initial priority 20) runs at the
      inherited priority 5\<close>
  "kernel_H_waits =
     \<lparr>threads = (\<lambda>_. thread_at 0 RT_THREAD_INIT)
                   (1 := thread_at 5 RT_THREAD_SUSPEND,
                    2 := (thread_at 20 RT_THREAD_READY)\<lparr>current_priority := 5\<rparr>),
      rt_current_thread = 2,
      rt_thread_priority_table = (\<lambda>_. [])(5 := [2])\<rparr>"

definition kernel_L_waits :: kernel where
  \<comment> \<open>thread 1 (priority 5) runs; thread 2 (priority 20) is suspended\<close>
  "kernel_L_waits =
     \<lparr>threads = (\<lambda>_. thread_at 0 RT_THREAD_INIT)
                   (1 := thread_at 5 RT_THREAD_READY, 2 := thread_at 20 RT_THREAD_SUSPEND),
      rt_current_thread = 1,
      rt_thread_priority_table = (\<lambda>_. [])(5 := [1])\<rparr>"

definition sem_prio_L_waits :: rt_semaphore where
  \<comment> \<open>a PRIO semaphore thread 2 waits for\<close>
  "sem_prio_L_waits =
     \<lparr>flag = RT_IPC_FLAG_PRIO, suspend_thread = [2], suspend_thread_count = 1,
      sem_value = - 1\<rparr>"

definition kernel_ev :: kernel where
  \<comment> \<open>thread 1 runs; thread 2 is suspended, waiting for both bits of 3 with AND and CLEAR\<close>
  "kernel_ev =
     \<lparr>threads = (\<lambda>_. thread_at 0 RT_THREAD_INIT)
                   (1 := thread_at 5 RT_THREAD_READY,
                    2 := (thread_at 20 RT_THREAD_SUSPEND)
                           \<lparr>event_set := 3,
                            event_info := RT_EVENT_FLAG_AND OR RT_EVENT_FLAG_CLEAR\<rparr>),
      rt_current_thread = 1,
      rt_thread_priority_table = (\<lambda>_. [])(5 := [1])\<rparr>"

definition event_waiting :: "32 word \<Rightarrow> rt_event" where
  \<comment> \<open>an event object with the given set that thread 2 waits for\<close>
  "event_waiting s =
     \<lparr>flag = RT_IPC_FLAG_FIFO, suspend_thread = [2], suspend_thread_count = 1, ev_set = s\<rparr>"

definition mailbox_blank :: rt_mailbox where
  \<comment> \<open>the memory of a mailbox before \<open>rt_mb_init\<close>\<close>
  "mailbox_blank =
     \<lparr>flag = RT_IPC_FLAG_FIFO, suspend_thread = [], suspend_thread_count = 0,
      mb_msg_pool = (\<lambda>_. 0), mb_size = 0, mb_entry = 0, mb_in_offset = 0,
      mb_out_offset = 0\<rparr>"

definition mailbox_L_waits :: rt_mailbox where
  \<comment> \<open>an empty mailbox of two mails that thread 2 waits for\<close>
  "mailbox_L_waits =
     \<lparr>flag = RT_IPC_FLAG_FIFO, suspend_thread = [2], suspend_thread_count = 1,
      mb_msg_pool = (\<lambda>_. 0), mb_size = 2, mb_entry = 0, mb_in_offset = 0,
      mb_out_offset = 0\<rparr>"

definition mq_blank :: rt_messagequeue where
  \<comment> \<open>the memory of a message queue object before \<open>rt_mq_create\<close> fills it\<close>
  "mq_blank =
     \<lparr>flag = RT_IPC_FLAG_FIFO, suspend_thread = [], suspend_thread_count = 0,
      mq_next = (\<lambda>_. None), mq_payload = (\<lambda>_. []), mq_msg_size = 0, mq_max_msgs = 0,
      mq_entry = 0, msg_queue_head = None, msg_queue_tail = None, msg_queue_free = None\<rparr>"

definition kernel_peers :: kernel where
  \<comment> \<open>threads 1 and 2, both of priority 10 and ready; thread 2 runs\<close>
  "kernel_peers =
     \<lparr>threads = (\<lambda>_. thread_at 0 RT_THREAD_INIT)
                   (1 := thread_at 10 RT_THREAD_READY, 2 := thread_at 10 RT_THREAD_READY),
      rt_current_thread = 2,
      rt_thread_priority_table = (\<lambda>_. [])(10 := [2, 1])\<rparr>"

definition running :: "tid \<Rightarrow> kernel \<Rightarrow> kernel" where
  \<comment> \<open>Modelled from the spec: scheduler.c is not among the sources. The kernel once
      the scheduler has switched to the ready thread \<open>t\<close>: there is exactly one running
      thread, and threads of equal priority take turns.\<close>
  "running t k = k\<lparr>rt_current_thread := t\<rparr>"

definition mutex_L_waits :: rt_mutex where
  \<comment> \<open>a mutex thread 1 has taken once and thread 2 waits for\<close>
  "mutex_L_waits =
     \<lparr>flag = RT_IPC_FLAG_FIFO, suspend_thread = [2], suspend_thread_count = 1,
      mutex_value = - 1, mutex_owner = Some 1, mutex_original_priority = 5, mutex_hold = 1\<rparr>"

definition mutex_released :: rt_mutex where
  \<comment> \<open>\<open>mutex_contended\<close> at the end of the release by thread 2: thread 1 has left the
      wait queue, and thread 2 is still the owner\<close>
  "mutex_released =
     \<lparr>flag = RT_IPC_FLAG_FIFO, suspend_thread = [], suspend_thread_count = 0,
      mutex_value = 0, mutex_owner = Some 2, mutex_original_priority = 20, mutex_hold = 0\<rparr>"

definition kernel_H_woken :: kernel where
  \<comment> \<open>\<open>kernel_H_waits\<close> at the end of that release: thread 1 (priority 5) is ready
      again, thread 2 is back at priority 20 and has not left the processor yet\<close>
  "kernel_H_woken =
     \<lparr>threads = (\<lambda>_. thread_at 0 RT_THREAD_INIT)
                   (1 := thread_at 5 RT_THREAD_READY, 2 := thread_at 20 RT_THREAD_READY),
      rt_current_thread = 2,
      rt_thread_priority_table = (\<lambda>_. [])(5 := [1], 20 := [2])\<rparr>"

definition kernel_L_runs :: kernel where
  \<comment> \<open>thread 2 (priority 20) runs; thread 1 (priority 5) is suspended\<close>
  "kernel_L_runs =
     \<lparr>threads = (\<lambda>_. thread_at 0 RT_THREAD_INIT)
                   (1 := thread_at 5 RT_THREAD_SUSPEND, 2 := thread_at 20 RT_THREAD_READY),
      rt_current_thread = 2,
      rt_thread_priority_table = (\<lambda>_. [])(20 := [2])\<rparr>"

fun mutex_takes ::
  "nat \<Rightarrow> 32 word \<Rightarrow> rt_mutex \<times> kernel \<Rightarrow> (rt_mutex \<times> kernel) result" where
  \<comment> \<open>\<open>n\<close> calls of \<open>rt_mutex_take\<close> by the running thread, one after the other\<close>
  "mutex_takes 0 time s = Return RT_EOK s"
| "mutex_takes (Suc n) time s =
     and_then (rt_mutex_take (fst s) time (snd s)) (mutex_takes n time)"

fun mutex_releases :: "nat \<Rightarrow> rt_mutex \<times> kernel \<Rightarrow> (rt_mutex \<times> kernel) result" where
  \<comment> \<open>\<open>n\<close> calls of \<open>rt_mutex_release\<close> by the running thread, one after the other\<close>
  "mutex_releases 0 s = Return RT_EOK s"
| "mutex_releases (Suc n) s =
     and_then (rt_mutex_release (fst s) (snd s)) (mutex_releases n)"

section \<open>Basic facts\<close>

lemma current_set_thread [simp]: "rt_current_thread (set_thread t f k) = rt_current_thread k"
  by (simp add: set_thread_def)

lemma current_insert_thread [simp]:
  "rt_current_thread (rt_schedule_insert_thread t k) = rt_current_thread k"
  by (simp add: rt_schedule_insert_thread_def Let_def)

lemma current_remove_thread [simp]:
  "rt_current_thread (rt_schedule_remove_thread t k) = rt_current_thread k"
  by (simp add: rt_schedule_remove_thread_def)

lemma current_change_priority [simp]:
  "rt_current_thread (rt_thread_control_CHANGE_PRIORITY t p k) = rt_current_thread k"
  by (simp add: rt_thread_control_CHANGE_PRIORITY_def)

lemma current_ipc_object_resume:
  "rt_ipc_object_resume ipc k = Some (ipc', k') \<Longrightarrow> rt_current_thread k' = rt_current_thread k"
  by (auto simp: rt_ipc_object_resume_def rt_thread_resume_def tlist_remove_def
      split: list.splits if_splits)

lemma and_then_Return [simp]: "and_then (Return RT_EOK s) f = f s"
  by (simp add: and_then_def)

lemma ipc_object_resume_Some:
  "suspend_thread ipc \<noteq> [] \<Longrightarrow> \<exists>s. rt_ipc_object_resume ipc k = Some s"
  by (auto simp: rt_ipc_object_resume_def split: list.splits prod.splits)

lemma counted_nonempty:
  "wait_queue_counted ipc \<Longrightarrow> 0 < suspend_thread_count ipc \<Longrightarrow> suspend_thread ipc \<noteq> []"
  by (auto simp: wait_queue_counted_def unat_0_iff)

lemma priority_ipc_object_suspend:
  "rt_ipc_object_suspend ipc thread k = (ipc', k') \<Longrightarrow>
     current_priority (threads k' x) = current_priority (threads k x)
     \<and> init_priority (threads k' x) = init_priority (threads k x)"
  by (auto simp: rt_ipc_object_suspend_def rt_thread_suspend_def set_thread_def
      rt_schedule_remove_thread_def Let_def split: if_splits ipc_flag.splits)

lemma priority_change_priority:
  "current_priority (threads (rt_thread_control_CHANGE_PRIORITY t p k) x) =
     (if x = t then p else current_priority (threads k x))"
  by (simp add: rt_thread_control_CHANGE_PRIORITY_def rt_schedule_insert_thread_def
      rt_schedule_remove_thread_def set_thread_def Let_def)

lemma init_priority_change_priority:
  "init_priority (threads (rt_thread_control_CHANGE_PRIORITY t p k) x) =
     init_priority (threads k x)"
  by (simp add: rt_thread_control_CHANGE_PRIORITY_def rt_schedule_insert_thread_def
      rt_schedule_remove_thread_def set_thread_def Let_def)

lemma priority_ipc_object_resume:
  "rt_ipc_object_resume ipc k = Some (ipc', k') \<Longrightarrow>
     current_priority (threads k' x) = current_priority (threads k x)
     \<and> init_priority (threads k' x) = init_priority (threads k x)"
  by (auto simp: rt_ipc_object_resume_def rt_thread_resume_def tlist_remove_def
      rt_schedule_insert_thread_def set_thread_def Let_def
      split: list.splits if_splits)

lemma priority_timer:
  "current_priority (threads (rt_timer_start t (rt_timer_control_SET_TIME t time k)) x)
     = current_priority (threads k x)"
  by (simp add: rt_timer_start_def rt_timer_control_SET_TIME_def set_thread_def)

lemma ready_ipc_object_suspend:
  "rt_ipc_object_suspend ipc thread k = (ipc', k') \<Longrightarrow> x \<noteq> thread \<Longrightarrow>
     x \<in> set (rt_thread_priority_table k p) \<Longrightarrow> x \<in> set (rt_thread_priority_table k' p)"
  by (auto simp: rt_ipc_object_suspend_def rt_thread_suspend_def set_thread_def
      rt_schedule_remove_thread_def rt_list_remove_def Let_def split: if_splits ipc_flag.splits)

lemma ready_change_priority:
  "stat (threads k t) = RT_THREAD_READY \<Longrightarrow>
   t \<in> set (rt_thread_priority_table (rt_thread_control_CHANGE_PRIORITY t p k) p)"
  by (simp add: rt_thread_control_CHANGE_PRIORITY_def rt_schedule_insert_thread_def
      rt_schedule_remove_thread_def set_thread_def Let_def rt_list_insert_before_def)

lemma ready_timer:
  "rt_thread_priority_table (rt_timer_start t (rt_timer_control_SET_TIME t time k))
     = rt_thread_priority_table k"
  by (simp add: rt_timer_start_def rt_timer_control_SET_TIME_def set_thread_def)

lemmas kernel_defs =
  rt_ipc_object_suspend_def rt_ipc_object_decrease_def
  rt_thread_suspend_def tlist_remove_def rt_list_remove_def
  rt_list_insert_before_def rt_schedule_insert_thread_def rt_schedule_remove_thread_def
  rt_timer_start_def rt_timer_control_SET_TIME_def set_thread_def rt_thread_self_def

section \<open>Semaphore: take without blocking\<close>

text \<open>
  C3. \<open>rt_sem_take\<close> on a semaphore whose value is positive decrements the value and
  returns RT_EOK without blocking (the kernel state is not touched); on a value that is
  not positive, with a zero waiting time, it returns RT_ETIMEOUT (and changes nothing);
  \<open>rt_sem_trytake\<close> is \<open>rt_sem_take\<close> with time 0.
\<close>

theorem rt_sem_take_nonblocking:
  "(0 <s sem_value sem \<longrightarrow>
      rt_sem_take sem t k = Return RT_EOK (sem\<lparr>sem_value := sem_value sem - 1\<rparr>, k))
   \<and> (sem_value sem \<le>s 0 \<longrightarrow> rt_sem_take sem 0 k = Return RT_ETIMEOUT (sem, k))
   \<and> rt_sem_trytake sem k = rt_sem_take sem 0 k"
  by (auto simp: rt_sem_take_def rt_sem_trytake_def word_sless_alt word_sle_eq)

theorem rt_sem_take_nonblocking_witness:
  "0 <s sem_value (sem_of 1)
   \<and> rt_sem_take (sem_of 1) 5 kernel_HL = Return RT_EOK (sem_of 0, kernel_HL)
   \<and> sem_value (sem_of 0) \<le>s 0
   \<and> rt_sem_take (sem_of 0) 0 kernel_HL = Return RT_ETIMEOUT (sem_of 0, kernel_HL)
   \<and> rt_sem_trytake (sem_of 0) kernel_HL = Return RT_ETIMEOUT (sem_of 0, kernel_HL)"
  using rt_sem_take_nonblocking [of "sem_of 1" 5 kernel_HL]
    rt_sem_take_nonblocking [of "sem_of 0" 0 kernel_HL]
  by (simp add: sem_of_def word_sless_alt word_sle_eq)

section \<open>Mutex: release by a thread that is not the owner\<close>

text \<open>
  C5. \<open>rt_mutex_release\<close> called by a thread that is not \<open>mutex->owner\<close> returns
  RT_ERROR and gives the mutex back as it was: value, owner, hold, original priority,
  wait queue and count. Only the caller's \<open>error\<close> field is written.
\<close>

theorem rt_mutex_release_not_owner:
  "mutex_owner mutex \<noteq> Some (rt_thread_self k) \<Longrightarrow>
   rt_mutex_release mutex k =
     Return RT_ERROR
       (mutex, set_thread (rt_thread_self k) (\<lambda>th. th\<lparr>error := RT_ERROR\<rparr>) k)"
  by (auto simp: rt_mutex_release_def Let_def)

theorem rt_mutex_release_not_owner_witness:
  "mutex_owner (mutex_blank\<lparr>mutex_owner := Some 2, mutex_hold := 1\<rparr>)
     \<noteq> Some (rt_thread_self kernel_HL)
   \<and> rt_mutex_release (mutex_blank\<lparr>mutex_owner := Some 2, mutex_hold := 1\<rparr>) kernel_HL =
       Return RT_ERROR
         (mutex_blank\<lparr>mutex_owner := Some 2, mutex_hold := 1\<rparr>,
          set_thread 1 (\<lambda>th. th\<lparr>error := RT_ERROR\<rparr>) kernel_HL)"
  using rt_mutex_release_not_owner
          [of "mutex_blank\<lparr>mutex_owner := Some 2, mutex_hold := 1\<rparr>" kernel_HL]
  by (simp add: mutex_blank_def kernel_HL_def rt_thread_self_def)

section \<open>Mutex: facts about take and release\<close>

lemma ipc_object_resume_mutex_fields:
  "rt_ipc_object_resume (mutex::rt_mutex) k = Some (mutex', k') \<Longrightarrow>
     mutex_owner mutex' = mutex_owner mutex \<and> mutex_value mutex' = mutex_value mutex
     \<and> mutex_hold mutex' = mutex_hold mutex"
  by (auto simp: rt_ipc_object_resume_def rt_thread_resume_def tlist_remove_def
      split: list.splits if_splits)

lemma mutex_take_free:
  assumes "mutex_owner mutex \<noteq> Some (rt_thread_self k)" "mutex_value mutex = 1"
  shows "rt_mutex_take mutex time k =
           Return RT_EOK
             (mutex\<lparr>mutex_value := 0, mutex_owner := Some (rt_thread_self k),
                    mutex_original_priority := current_priority (threads k (rt_thread_self k)),
                    mutex_hold := mutex_hold mutex + 1\<rparr>,
              set_thread (rt_thread_self k) (\<lambda>th. th\<lparr>error := RT_EOK\<rparr>) k)"
  using assms by (simp add: rt_mutex_take_def Let_def word_sless_alt set_thread_def)

lemma mutex_take_blocks:
  assumes "mutex_owner mutex = Some owner" "owner \<noteq> rt_thread_self k"
    "\<not> 0 <s mutex_value mutex" "time \<noteq> 0"
  shows "\<exists>mutex' k'. rt_mutex_take mutex time k = Blocked (mutex', k')
     \<and> current_priority (threads k' owner) =
         (if current_priority (threads k (rt_thread_self k)) < current_priority (threads k owner)
          then current_priority (threads k (rt_thread_self k))
          else current_priority (threads k owner))"
  using assms
  apply (simp add: rt_mutex_take_def Let_def split: prod.splits)
  apply (auto simp: priority_timer priority_change_priority
      dest!: priority_ipc_object_suspend [where x = owner])
   apply (simp_all add: set_thread_def priority_change_priority)
  done

lemma mutex_take_requeues_owner:
  assumes "mutex_owner mutex = Some owner"
    "\<not> 0 <s mutex_value mutex" "time \<noteq> 0"
    "current_priority (threads k (rt_thread_self k)) < current_priority (threads k owner)"
    "stat (threads k owner) = RT_THREAD_READY"
    "rt_mutex_take mutex time k = Blocked (mutex', k')"
  shows "owner \<in> set (rt_thread_priority_table k'
                        (current_priority (threads k (rt_thread_self k))))"
proof -
  from assms(4) have ne: "owner \<noteq> rt_thread_self k" by auto
  let ?k1 = "set_thread (rt_thread_self k) (\<lambda>th. th\<lparr>error := RT_EOK\<rparr>) k"
  have s: "stat (threads ?k1 owner) = RT_THREAD_READY"
    using assms(5) ne by (simp add: set_thread_def)
  have p: "current_priority (threads ?k1 (rt_thread_self k))
             = current_priority (threads k (rt_thread_self k))"
    "current_priority (threads ?k1 owner) = current_priority (threads k owner)"
    by (simp_all add: set_thread_def)
  let ?p = "current_priority (threads k (rt_thread_self k))"
  let ?k2 = "rt_thread_control_CHANGE_PRIORITY owner ?p ?k1"
  obtain m2 k3 where
    sus: "rt_ipc_object_suspend (mutex\<lparr>mutex_value := mutex_value mutex - 1\<rparr>)
            (rt_thread_self k) ?k2 = (m2, k3)"
    by (cases "rt_ipc_object_suspend (mutex\<lparr>mutex_value := mutex_value mutex - 1\<rparr>)
            (rt_thread_self k) ?k2")
  from ready_ipc_object_suspend [OF sus ne ready_change_priority [OF s]]
  have "owner \<in> set (rt_thread_priority_table k3 ?p)" .
  moreover have "rt_thread_priority_table k' = rt_thread_priority_table k3"
    using assms(1,2,3,4,6) ne p sus
    by (auto simp: rt_mutex_take_def Let_def rt_thread_self_def ready_timer split: if_splits)
  ultimately show ?thesis by simp
qed

lemma mutex_release_partial:
  "mutex_owner mutex = Some (rt_thread_self k) \<Longrightarrow> mutex_hold mutex \<noteq> 1 \<Longrightarrow>
   rt_mutex_release mutex k = Return RT_EOK (mutex\<lparr>mutex_hold := mutex_hold mutex - 1\<rparr>, k)"
  by (auto simp: rt_mutex_release_def Let_def)

lemma mutex_release_full:
  assumes "mutex_owner mutex = Some (rt_thread_self k)" "mutex_hold mutex = 1"
    "wait_queue_counted mutex"
  shows "\<exists>mutex' k'. rt_mutex_release mutex k = Return RT_EOK (mutex', k')
            \<and> mutex_hold mutex' = 0 \<and> mutex_value mutex' = mutex_value mutex + 1
            \<and> mutex_owner mutex' = mutex_owner mutex"
proof (cases "mutex_value mutex \<le>s 0 \<and> 0 < suspend_thread_count mutex")
  case True
  let ?k1 = "if init_priority (threads k (rt_thread_self k))
                  \<noteq> current_priority (threads k (rt_thread_self k))
             then rt_thread_control_CHANGE_PRIORITY (rt_thread_self k)
                    (init_priority (threads k (rt_thread_self k))) k
             else k"
  from True have "suspend_thread (mutex\<lparr>mutex_hold := mutex_hold mutex - 1\<rparr>) \<noteq> []"
    using assms by (auto simp: wait_queue_counted_def unat_0_iff)
  from ipc_object_resume_Some [OF this, of ?k1]
  obtain m2 k2 where
    r: "rt_ipc_object_resume (mutex\<lparr>mutex_hold := mutex_hold mutex - 1\<rparr>) ?k1 = Some (m2, k2)"
    by fastforce
  from ipc_object_resume_mutex_fields [OF r] r True assms show ?thesis
    by (simp add: rt_mutex_release_def Let_def)
next
  case False
  with assms show ?thesis by (auto simp: rt_mutex_release_def Let_def)
qed

lemma mutex_release_restores:
  assumes "mutex_owner mutex = Some (rt_thread_self k)" "mutex_hold mutex = 1"
    "rt_mutex_release mutex k = Return r (mutex', k')"
  shows "current_priority (threads k' (rt_thread_self k))
           = init_priority (threads k (rt_thread_self k))
       \<and> init_priority (threads k' (rt_thread_self k))
           = init_priority (threads k (rt_thread_self k))"
  using assms
  by (auto simp: rt_mutex_release_def Let_def priority_change_priority
      init_priority_change_priority split: if_splits option.splits
      dest!: priority_ipc_object_resume [where x = "rt_thread_self k"])

lemma mutex_release_returns:
  assumes "wait_queue_counted mutex"
  shows "\<exists>r mutex' k'. rt_mutex_release mutex k = Return r (mutex', k')"
proof (cases "mutex_value (mutex\<lparr>mutex_hold := mutex_hold mutex - 1\<rparr>) \<le>s 0
        \<and> 0 < suspend_thread_count (mutex\<lparr>mutex_hold := mutex_hold mutex - 1\<rparr>)")
  case True
  then have "suspend_thread (mutex\<lparr>mutex_hold := mutex_hold mutex - 1\<rparr>) \<noteq> []"
    using assms by (auto simp: wait_queue_counted_def unat_0_iff)
  from ipc_object_resume_Some [OF this]
  show ?thesis
    by (auto simp: rt_mutex_release_def Let_def split: option.splits)
      (metis option.distinct(1) surj_pair)+
next
  case False
  then show ?thesis by (auto simp: rt_mutex_release_def Let_def)
qed

section \<open>Mutex: priority inheritance\<close>

text \<open>
  C2. A call of \<open>rt_mutex_take\<close> that must block (the caller is not the owner, the value
  is not positive, the waiting time is not 0) leaves the owner with the caller's
  \<open>current_priority\<close> when that is numerically lower than the owner's, and with its own
  otherwise (so equal priorities give no boost); a READY owner that is boosted is moved
  to the ready list of its new priority, as the change-priority control does. A release
  by the owner that brings \<open>hold\<close> from 1 to 0 returns (RT_EOK, when the count agrees with
  the wait queue) with the owner's \<open>current_priority\<close> equal to its \<open>init_priority\<close>.
\<close>

theorem rt_mutex_priority_inheritance:
  "(mutex_owner mutex = Some owner \<and> owner \<noteq> rt_thread_self k
      \<and> \<not> 0 <s mutex_value mutex \<and> time \<noteq> 0 \<longrightarrow>
      (\<exists>mutex' k'. rt_mutex_take mutex time k = Blocked (mutex', k')
         \<and> current_priority (threads k' owner) =
             (if current_priority (threads k (rt_thread_self k))
                   < current_priority (threads k owner)
              then current_priority (threads k (rt_thread_self k))
              else current_priority (threads k owner))
         \<and> (current_priority (threads k (rt_thread_self k))
               < current_priority (threads k owner)
             \<and> stat (threads k owner) = RT_THREAD_READY \<longrightarrow>
             owner \<in> set (rt_thread_priority_table k'
                             (current_priority (threads k (rt_thread_self k)))))))
   \<and> (mutex_owner mutex = Some (rt_thread_self k) \<and> mutex_hold mutex = 1 \<longrightarrow>
        (wait_queue_counted mutex \<longrightarrow>
           (\<exists>mutex' k'. rt_mutex_release mutex k = Return RT_EOK (mutex', k')
               \<and> mutex_hold mutex' = 0))
        \<and> (\<forall>r mutex' k'. rt_mutex_release mutex k = Return r (mutex', k') \<longrightarrow>
              current_priority (threads k' (rt_thread_self k))
                = init_priority (threads k (rt_thread_self k))
              \<and> init_priority (threads k' (rt_thread_self k))
                = init_priority (threads k (rt_thread_self k))))"
proof (intro conjI impI allI)
  assume a: "mutex_owner mutex = Some owner \<and> owner \<noteq> rt_thread_self k
      \<and> \<not> 0 <s mutex_value mutex \<and> time \<noteq> 0"
  then obtain mutex' k' where
    b: "rt_mutex_take mutex time k = Blocked (mutex', k')"
      "current_priority (threads k' owner) =
         (if current_priority (threads k (rt_thread_self k))
               < current_priority (threads k owner)
          then current_priority (threads k (rt_thread_self k))
          else current_priority (threads k owner))"
    using mutex_take_blocks [of mutex owner k time] by blast
  have "current_priority (threads k (rt_thread_self k)) < current_priority (threads k owner)
        \<and> stat (threads k owner) = RT_THREAD_READY \<longrightarrow>
        owner \<in> set (rt_thread_priority_table k'
                        (current_priority (threads k (rt_thread_self k))))"
    using a b(1) mutex_take_requeues_owner [of mutex owner time k mutex' k'] by blast
  with b show "\<exists>mutex' k'. rt_mutex_take mutex time k = Blocked (mutex', k')
         \<and> current_priority (threads k' owner) =
             (if current_priority (threads k (rt_thread_self k))
                   < current_priority (threads k owner)
              then current_priority (threads k (rt_thread_self k))
              else current_priority (threads k owner))
         \<and> (current_priority (threads k (rt_thread_self k))
               < current_priority (threads k owner)
             \<and> stat (threads k owner) = RT_THREAD_READY \<longrightarrow>
             owner \<in> set (rt_thread_priority_table k'
                             (current_priority (threads k (rt_thread_self k)))))"
    by blast
next
  assume "mutex_owner mutex = Some (rt_thread_self k) \<and> mutex_hold mutex = 1"
    and "wait_queue_counted mutex"
  then show "\<exists>mutex' k'. rt_mutex_release mutex k = Return RT_EOK (mutex', k')
               \<and> mutex_hold mutex' = 0"
    using mutex_release_full [of mutex k] by blast
next
  fix r mutex' k'
  assume a: "mutex_owner mutex = Some (rt_thread_self k) \<and> mutex_hold mutex = 1"
    and r: "rt_mutex_release mutex k = Return r (mutex', k')"
  from a r mutex_release_restores [of mutex k r mutex' k']
  show "current_priority (threads k' (rt_thread_self k))
                = init_priority (threads k (rt_thread_self k))"
    and "init_priority (threads k' (rt_thread_self k))
                = init_priority (threads k (rt_thread_self k))"
    by blast+
qed

theorem rt_mutex_priority_inheritance_witness:
  "mutex_owner mutex_held_by_L = Some 2 \<and> rt_thread_self kernel_HL = 1
   \<and> current_priority (threads kernel_HL 1) = 5
   \<and> current_priority (threads kernel_HL 2) = 20
   \<and> (\<exists>mutex' k'. rt_mutex_take mutex_held_by_L (- 1) kernel_HL = Blocked (mutex', k')
         \<and> current_priority (threads k' 2) = 5
         \<and> 2 \<in> set (rt_thread_priority_table k' 5))
   \<and> mutex_owner mutex_contended = Some (rt_thread_self kernel_H_waits)
   \<and> mutex_hold mutex_contended = 1 \<and> wait_queue_counted mutex_contended
   \<and> current_priority (threads kernel_H_waits 2) = 5
   \<and> (\<exists>mutex' k'. rt_mutex_release mutex_contended kernel_H_waits = Return RT_EOK (mutex', k')
         \<and> mutex_hold mutex' = 0 \<and> current_priority (threads k' 2) = 20)"
proof -
  have a: "mutex_owner mutex_held_by_L = Some 2" "rt_thread_self kernel_HL = 1"
    "current_priority (threads kernel_HL 1) = 5" "current_priority (threads kernel_HL 2) = 20"
    "\<not> 0 <s mutex_value mutex_held_by_L" "stat (threads kernel_HL 2) = RT_THREAD_READY"
    by (simp_all add: mutex_held_by_L_def kernel_HL_def rt_thread_self_def thread_at_def
        word_sless_alt)
  have b: "mutex_owner mutex_contended = Some (rt_thread_self kernel_H_waits)"
    "mutex_hold mutex_contended = 1" "wait_queue_counted mutex_contended"
    "current_priority (threads kernel_H_waits 2) = 5"
    "init_priority (threads kernel_H_waits 2) = 20" "rt_thread_self kernel_H_waits = 2"
    by (simp_all add: mutex_contended_def kernel_H_waits_def rt_thread_self_def thread_at_def
        wait_queue_counted_def)
  from rt_mutex_priority_inheritance [of mutex_held_by_L 2 kernel_HL "- 1"] a
  have 1: "\<exists>mutex' k'. rt_mutex_take mutex_held_by_L (- 1) kernel_HL = Blocked (mutex', k')
         \<and> current_priority (threads k' 2) = 5
         \<and> 2 \<in> set (rt_thread_priority_table k' 5)"
    by simp
  from rt_mutex_priority_inheritance [of mutex_contended 2 kernel_H_waits] b
  have 2: "\<exists>mutex' k'. rt_mutex_release mutex_contended kernel_H_waits
                         = Return RT_EOK (mutex', k')
         \<and> mutex_hold mutex' = 0 \<and> current_priority (threads k' 2) = 20"
    by (metis (no_types, lifting))
  from a b 1 2 show ?thesis by blast
qed

section \<open>Mutex: the owner after a release\<close>

lemma mutex_release_wakes:
  assumes "mutex_owner mutex = Some (rt_thread_self k)" "mutex_hold mutex = 1"
    "mutex_value mutex \<le>s 0" "suspend_thread mutex = t # ts"
    "0 < suspend_thread_count mutex" "stat (threads k t) = RT_THREAD_SUSPEND"
  shows "\<exists>mutex' k'. rt_mutex_release mutex k = Return RT_EOK (mutex', k')
            \<and> stat (threads k' t) = RT_THREAD_READY
            \<and> error (threads k' t) = error (threads k t)"
  using assms
  by (auto simp: rt_mutex_release_def Let_def rt_ipc_object_resume_def rt_thread_resume_def
      tlist_remove_def rt_thread_control_CHANGE_PRIORITY_def rt_schedule_insert_thread_def
      rt_schedule_remove_thread_def set_thread_def)

text \<open>
  C10. \<open>rt_mutex_release\<close> never writes \<open>mutex->owner\<close>: in the state it leaves, which
  after a full release is the state at its call of \<open>rt_schedule()\<close>, the owner is the one
  before the call and the releasing thread is still the running thread. Where no other
  thread runs before the releasing thread goes on, its next \<open>rt_mutex_take\<close> takes the
  branch of the owner: RT_EOK, \<open>hold\<close> one more, the value and everything else untouched.
  That is so after a release that leaves \<open>hold\<close> above 0, which does not call
  \<open>rt_schedule()\<close>, and after a full release that leaves every other ready thread less
  urgent than the releasing thread, with or without a waiter woken. A woken waiter that
  is more urgent than the releasing thread runs inside \<open>rt_schedule()\<close>, before the
  release returns: it goes on in \<open>rt_mutex_take\<close> and makes itself the owner, with
  \<open>hold\<close> 1. The release returns whenever the count agrees with the wait queue.
\<close>

theorem rt_mutex_release_keeps_owner:
  "(wait_queue_counted mutex \<longrightarrow>
      (\<exists>r mutex' k'. rt_mutex_release mutex k = Return r (mutex', k')))
   \<and> (\<forall>r mutex' k'. rt_mutex_release mutex k = Return r (mutex', k') \<longrightarrow>
        mutex_owner mutex' = mutex_owner mutex
        \<and> rt_thread_self k' = rt_thread_self k
        \<and> (mutex_owner mutex = Some (rt_thread_self k) \<longrightarrow>
             r = RT_EOK
             \<and> mutex_hold mutex' = mutex_hold mutex - 1
             \<and> ((mutex_hold mutex = 1 \<longrightarrow>
                    (\<forall>x. x \<noteq> rt_thread_self k \<and> stat (threads k' x) = RT_THREAD_READY \<longrightarrow>
                         current_priority (threads k' (rt_thread_self k))
                           < current_priority (threads k' x))) \<longrightarrow>
                 rt_mutex_take mutex' time k' =
                   Return RT_EOK
                     (mutex'\<lparr>mutex_hold := mutex_hold mutex' + 1\<rparr>,
                      set_thread (rt_thread_self k) (\<lambda>th. th\<lparr>error := RT_EOK\<rparr>) k'))
             \<and> (mutex_hold mutex = 1 \<and> mutex_value mutex \<le>s 0
                  \<and> 0 < suspend_thread_count mutex \<and> suspend_thread mutex = t # ts
                  \<and> stat (threads k t) = RT_THREAD_SUSPEND \<and> error (threads k t) = RT_EOK
                  \<and> current_priority (threads k' t)
                      < current_priority (threads k' (rt_thread_self k)) \<longrightarrow>
                 stat (threads k' t) = RT_THREAD_READY
                 \<and> rt_mutex_take_resumed mutex' t (running t k') =
                     Return RT_EOK
                       (mutex'\<lparr>mutex_owner := Some t, mutex_hold := 1\<rparr>,
                        set_thread t (\<lambda>th. th\<lparr>error := RT_EOK\<rparr>) (running t k')))))"
proof (intro conjI impI allI)
  assume "wait_queue_counted mutex"
  then show "\<exists>r mutex' k'. rt_mutex_release mutex k = Return r (mutex', k')"
    by (rule mutex_release_returns)
next
  fix r mutex' k'
  assume rel: "rt_mutex_release mutex k = Return r (mutex', k')"
  then show own: "mutex_owner mutex' = mutex_owner mutex"
    by (auto simp: rt_mutex_release_def Let_def split: if_splits option.splits
        dest: ipc_object_resume_mutex_fields)
  from rel show cur: "rt_thread_self k' = rt_thread_self k"
    by (auto simp: rt_mutex_release_def Let_def rt_thread_self_def
        split: if_splits option.splits dest: current_ipc_object_resume)
  assume o: "mutex_owner mutex = Some (rt_thread_self k)"
  with rel show "r = RT_EOK"
    by (auto simp: rt_mutex_release_def Let_def split: if_splits option.splits)
  from rel o show h: "mutex_hold mutex' = mutex_hold mutex - 1"
    by (auto simp: rt_mutex_release_def Let_def split: if_splits option.splits
        dest: ipc_object_resume_mutex_fields)
  from own cur o show "rt_mutex_take mutex' time k' =
                 Return RT_EOK
                   (mutex'\<lparr>mutex_hold := mutex_hold mutex' + 1\<rparr>,
                    set_thread (rt_thread_self k) (\<lambda>th. th\<lparr>error := RT_EOK\<rparr>) k')"
    by (simp add: rt_mutex_take_def Let_def)
  assume w: "mutex_hold mutex = 1 \<and> mutex_value mutex \<le>s 0
                  \<and> 0 < suspend_thread_count mutex \<and> suspend_thread mutex = t # ts
                  \<and> stat (threads k t) = RT_THREAD_SUSPEND \<and> error (threads k t) = RT_EOK
                  \<and> current_priority (threads k' t)
                      < current_priority (threads k' (rt_thread_self k))"
  with o mutex_release_wakes [of mutex k t ts] rel
  have s: "stat (threads k' t) = RT_THREAD_READY" "error (threads k' t) = RT_EOK"
    by auto
  from s show "stat (threads k' t) = RT_THREAD_READY" by simp
  from h w have "mutex_hold mutex' = 0" by simp
  with s show "rt_mutex_take_resumed mutex' t (running t k') =
                     Return RT_EOK
                       (mutex'\<lparr>mutex_owner := Some t, mutex_hold := 1\<rparr>,
                        set_thread t (\<lambda>th. th\<lparr>error := RT_EOK\<rparr>) (running t k'))"
    by (simp add: rt_mutex_take_resumed_def running_def)
qed

theorem rt_mutex_release_keeps_owner_witness:
  "wait_queue_counted mutex_L_waits
   \<and> mutex_owner mutex_L_waits = Some (rt_thread_self kernel_L_waits)
   \<and> mutex_hold mutex_L_waits = 1
   \<and> (\<exists>mutex' k'. rt_mutex_release mutex_L_waits kernel_L_waits = Return RT_EOK (mutex', k')
         \<and> mutex_owner mutex' = Some 1 \<and> mutex_hold mutex' = 0
         \<and> stat (threads k' 2) = RT_THREAD_READY
         \<and> current_priority (threads k' 1) = 5 \<and> current_priority (threads k' 2) = 20
         \<and> rt_mutex_take mutex' 0 k' =
             Return RT_EOK
               (mutex'\<lparr>mutex_hold := 1\<rparr>, set_thread 1 (\<lambda>th. th\<lparr>error := RT_EOK\<rparr>) k'))
   \<and> mutex_owner mutex_contended = Some (rt_thread_self kernel_H_waits)
   \<and> mutex_hold mutex_contended = 1 \<and> mutex_value mutex_contended \<le>s 0
   \<and> 0 < suspend_thread_count mutex_contended \<and> suspend_thread mutex_contended = [1]
   \<and> stat (threads kernel_H_waits 1) = RT_THREAD_SUSPEND
   \<and> error (threads kernel_H_waits 1) = RT_EOK
   \<and> (\<exists>mutex' k'. rt_mutex_release mutex_contended kernel_H_waits = Return RT_EOK (mutex', k')
         \<and> mutex_owner mutex' = Some 2 \<and> mutex_hold mutex' = 0
         \<and> stat (threads k' 1) = RT_THREAD_READY
         \<and> current_priority (threads k' 1) = 5 \<and> current_priority (threads k' 2) = 20
         \<and> rt_mutex_take_resumed mutex' 1 (running 1 k') =
             Return RT_EOK
               (mutex'\<lparr>mutex_owner := Some 1, mutex_hold := 1\<rparr>,
                set_thread 1 (\<lambda>th. th\<lparr>error := RT_EOK\<rparr>) (running 1 k')))"
proof -
  have a: "wait_queue_counted mutex_L_waits"
    "mutex_owner mutex_L_waits = Some (rt_thread_self kernel_L_waits)"
    "mutex_hold mutex_L_waits = 1" "rt_thread_self kernel_L_waits = 1"
    by (simp_all add: mutex_L_waits_def kernel_L_waits_def rt_thread_self_def
        wait_queue_counted_def)
  have b: "mutex_owner mutex_contended = Some (rt_thread_self kernel_H_waits)"
    "mutex_hold mutex_contended = 1" "mutex_value mutex_contended \<le>s 0"
    "0 < suspend_thread_count mutex_contended" "suspend_thread mutex_contended = [1]"
    "stat (threads kernel_H_waits 1) = RT_THREAD_SUSPEND"
    "error (threads kernel_H_waits 1) = RT_EOK" "rt_thread_self kernel_H_waits = 2"
    "wait_queue_counted mutex_contended"
    by (simp_all add: mutex_contended_def kernel_H_waits_def rt_thread_self_def thread_at_def
        wait_queue_counted_def word_sle_eq)
  note T1 = rt_mutex_release_keeps_owner [of mutex_L_waits kernel_L_waits 0]
  from T1 [THEN conjunct1] a(1)
  obtain r1 m1 k1 where
    r1: "rt_mutex_release mutex_L_waits kernel_L_waits = Return r1 (m1, k1)"
    by blast
  note P1 = T1 [THEN conjunct2, THEN spec, THEN spec, THEN spec, THEN mp, OF r1]
  have k1: "stat (threads k1 2) = RT_THREAD_READY"
    "current_priority (threads k1 1) = 5" "current_priority (threads k1 2) = 20"
    "\<forall>x. x \<noteq> 1 \<and> stat (threads k1 x) = RT_THREAD_READY \<longrightarrow>
         current_priority (threads k1 1) < current_priority (threads k1 x)"
    using r1
    by (auto simp: mutex_L_waits_def kernel_L_waits_def
      rt_mutex_release_def Let_def rt_ipc_object_resume_def rt_thread_resume_def
      tlist_remove_def rt_thread_control_CHANGE_PRIORITY_def rt_schedule_insert_thread_def
      rt_schedule_remove_thread_def set_thread_def rt_thread_self_def thread_at_def
      rt_list_remove_def rt_list_insert_before_def word_sle_eq split: if_splits)
  from P1 a k1(4)
  have 1: "r1 = RT_EOK" "mutex_owner m1 = Some 1" "mutex_hold m1 = 0"
    "rt_mutex_take m1 0 k1 =
       Return RT_EOK (m1\<lparr>mutex_hold := 1\<rparr>, set_thread 1 (\<lambda>th. th\<lparr>error := RT_EOK\<rparr>) k1)"
    by simp_all
  note T2 = rt_mutex_release_keeps_owner [of mutex_contended kernel_H_waits _ 1 "[]"]
  from T2 [THEN conjunct1] b(9)
  obtain r2 m2 k2 where
    r2: "rt_mutex_release mutex_contended kernel_H_waits = Return r2 (m2, k2)"
    by blast
  note P2 = T2 [THEN conjunct2, THEN spec, THEN spec, THEN spec, THEN mp, OF r2]
  have k2: "current_priority (threads k2 1) = 5" "current_priority (threads k2 2) = 20"
    using r2
    by (auto simp: mutex_contended_def kernel_H_waits_def
      rt_mutex_release_def Let_def rt_ipc_object_resume_def rt_thread_resume_def
      tlist_remove_def rt_thread_control_CHANGE_PRIORITY_def rt_schedule_insert_thread_def
      rt_schedule_remove_thread_def set_thread_def rt_thread_self_def thread_at_def
      rt_list_remove_def rt_list_insert_before_def word_sle_eq split: if_splits)
  from P2 b k2
  have 2: "r2 = RT_EOK" "mutex_owner m2 = Some 2" "mutex_hold m2 = 0"
    "stat (threads k2 1) = RT_THREAD_READY"
    "rt_mutex_take_resumed m2 1 (running 1 k2) =
       Return RT_EOK
         (m2\<lparr>mutex_owner := Some 1, mutex_hold := 1\<rparr>,
          set_thread 1 (\<lambda>th. th\<lparr>error := RT_EOK\<rparr>) (running 1 k2))"
    by simp_all
  from a b r1 k1(1,2,3) 1 r2 k2 2 show ?thesis by blast
qed

text \<open>
  The run with a more urgent waiter. Thread 2 holds the mutex at the inherited priority 5
  and thread 1 (priority 5) waits for it. The release puts thread 2 back at priority 20
  and makes thread 1 ready, with thread 2 still the owner; thread 1 runs, goes on in
  \<open>rt_mutex_take\<close> as the owner now, and later suspends itself; thread 2 then sees its
  release return, and the \<open>rt_mutex_take\<close> it makes next, with no waiting time, finds the
  mutex owned by thread 1 and returns RT_ETIMEOUT, \<open>hold\<close> left as it was.
\<close>

theorem rt_mutex_release_hands_over:
  "rt_mutex_release mutex_contended kernel_H_waits
     = Return RT_EOK (mutex_released, kernel_H_woken)
   \<and> mutex_owner mutex_released = Some 2 \<and> mutex_hold mutex_released = 0
   \<and> rt_mutex_take_resumed mutex_released 1 (running 1 kernel_H_woken)
       = Return RT_EOK
           (mutex_released\<lparr>mutex_owner := Some 1, mutex_hold := 1\<rparr>, running 1 kernel_H_woken)
   \<and> rt_thread_suspend 1 (running 1 kernel_H_woken) = (RT_EOK, running 1 kernel_L_runs)
   \<and> rt_mutex_take (mutex_released\<lparr>mutex_owner := Some 1, mutex_hold := 1\<rparr>) 0 kernel_L_runs
       = Return RT_ETIMEOUT
           (mutex_released\<lparr>mutex_owner := Some 1, mutex_hold := 1\<rparr>,
            set_thread 2 (\<lambda>th. th\<lparr>error := RT_ETIMEOUT\<rparr>) kernel_L_runs)"
proof -
  have 1: "rt_mutex_release mutex_contended kernel_H_waits
     = Return RT_EOK (mutex_released, kernel_H_woken)"
    by (simp add: mutex_contended_def kernel_H_waits_def mutex_released_def kernel_H_woken_def
      rt_mutex_release_def Let_def rt_ipc_object_resume_def rt_thread_resume_def
      tlist_remove_def rt_thread_control_CHANGE_PRIORITY_def rt_schedule_insert_thread_def
      rt_schedule_remove_thread_def set_thread_def rt_thread_self_def thread_at_def
      rt_list_remove_def rt_list_insert_before_def word_sle_eq fun_eq_iff)
  have 2: "mutex_owner mutex_released = Some 2" "mutex_hold mutex_released = 0"
    by (simp_all add: mutex_released_def)
  have 3: "rt_mutex_take_resumed mutex_released 1 (running 1 kernel_H_woken)
       = Return RT_EOK
           (mutex_released\<lparr>mutex_owner := Some 1, mutex_hold := 1\<rparr>, running 1 kernel_H_woken)"
    by (simp add: rt_mutex_take_resumed_def running_def kernel_H_woken_def mutex_released_def
        set_thread_def thread_at_def fun_eq_iff)
  have 4: "rt_thread_suspend 1 (running 1 kernel_H_woken) = (RT_EOK, running 1 kernel_L_runs)"
    by (simp add: rt_thread_suspend_def running_def kernel_H_woken_def kernel_L_runs_def
        set_thread_def thread_at_def rt_schedule_remove_thread_def rt_list_remove_def
        fun_eq_iff)
  have 5: "rt_mutex_take (mutex_released\<lparr>mutex_owner := Some 1, mutex_hold := 1\<rparr>) 0 kernel_L_runs
       = Return RT_ETIMEOUT
           (mutex_released\<lparr>mutex_owner := Some 1, mutex_hold := 1\<rparr>,
            set_thread 2 (\<lambda>th. th\<lparr>error := RT_ETIMEOUT\<rparr>) kernel_L_runs)"
    by (simp add: rt_mutex_take_def Let_def rt_thread_self_def kernel_L_runs_def
        mutex_released_def set_thread_def word_sless_alt)
  from 1 2 3 4 5 show ?thesis by blast
qed

section \<open>Mutex: recursive takes and releases\<close>

lemma mutex_takes_Suc:
  "rt_mutex_take mutex time k = Return RT_EOK s \<Longrightarrow>
   mutex_takes (Suc n) time (mutex, k) = mutex_takes n time s"
  by simp

lemma mutex_releases_Suc:
  "rt_mutex_release mutex k = Return RT_EOK s \<Longrightarrow>
   mutex_releases (Suc n) (mutex, k) = mutex_releases n s"
  by simp

lemma mutex_takes_owner:
  "mutex_owner mutex = Some (rt_thread_self k) \<Longrightarrow>
   \<exists>k'. mutex_takes n time (mutex, k) =
           Return RT_EOK (mutex\<lparr>mutex_hold := mutex_hold mutex + of_nat n\<rparr>, k')
        \<and> rt_thread_self k' = rt_thread_self k"
proof (induction n arbitrary: mutex k)
  case 0
  then show ?case by simp
next
  case (Suc n)
  let ?m = "mutex\<lparr>mutex_hold := mutex_hold mutex + 1\<rparr>"
  let ?k = "set_thread (rt_thread_self k) (\<lambda>th. th\<lparr>error := RT_EOK\<rparr>) k"
  have t: "rt_mutex_take mutex time k = Return RT_EOK (?m, ?k)"
    using Suc.prems by (simp add: rt_mutex_take_def Let_def)
  have "mutex_owner ?m = Some (rt_thread_self ?k)"
    using Suc.prems by (simp add: rt_thread_self_def)
  from Suc.IH [OF this] obtain k' where
    "mutex_takes n time (?m, ?k) =
       Return RT_EOK (?m\<lparr>mutex_hold := mutex_hold ?m + of_nat n\<rparr>, k')"
    "rt_thread_self k' = rt_thread_self ?k" by blast
  then show ?case
    by (simp only: mutex_takes_Suc [OF t]) (auto simp: rt_thread_self_def add.assoc)
qed

lemma mutex_releases_owner:
  assumes "mutex_owner mutex = Some (rt_thread_self k)"
    "mutex_hold mutex = of_nat (Suc n)" "Suc n < 2 ^ 32" "wait_queue_counted mutex"
  shows "\<exists>mutex' k'. mutex_releases (Suc n) (mutex, k) = Return RT_EOK (mutex', k')
            \<and> mutex_hold mutex' = 0 \<and> mutex_value mutex' = mutex_value mutex + 1"
  using assms
proof (induction n arbitrary: mutex)
  case 0
  then have "mutex_hold mutex = 1" by simp
  from mutex_release_full [OF "0.prems"(1) this "0.prems"(4)]
  show ?case by auto
next
  case (Suc n)
  have "(of_nat (Suc n) :: 32 word) \<noteq> 0"
    using Suc.prems(3) by (intro of_nat_neq_0) simp_all
  then have h: "mutex_hold mutex \<noteq> 1"
    using Suc.prems(2) by simp
  let ?m = "mutex\<lparr>mutex_hold := mutex_hold mutex - 1\<rparr>"
  have r: "rt_mutex_release mutex k = Return RT_EOK (?m, k)"
    using Suc.prems(1) h by (rule mutex_release_partial)
  have "mutex_owner ?m = Some (rt_thread_self k)" "mutex_hold ?m = of_nat (Suc n)"
    "Suc n < 2 ^ 32" "wait_queue_counted ?m"
    using Suc.prems by (simp_all add: wait_queue_counted_def)
  from Suc.IH [OF this] show ?case
    by (simp only: mutex_releases_Suc [OF r]) simp
qed

lemma mutex_recursion_fresh:
  assumes "mutex_owner mutex \<noteq> Some (rt_thread_self k)"
    "mutex_value mutex = 1" "mutex_hold mutex = 0" "wait_queue_counted mutex"
    "0 < N" "N < 2 ^ 32"
  shows "\<exists>m1 k1 m2 k2.
           mutex_takes N time (mutex, k) = Return RT_EOK (m1, k1)
           \<and> mutex_owner m1 = Some (rt_thread_self k) \<and> mutex_hold m1 = of_nat N
           \<and> mutex_value m1 = 0
           \<and> mutex_releases N (m1, k1) = Return RT_EOK (m2, k2)
           \<and> mutex_hold m2 = 0 \<and> mutex_value m2 = 1"
proof -
  from assms(5) obtain n where N: "N = Suc n" by (cases N) auto
  let ?m = "mutex\<lparr>mutex_value := 0, mutex_owner := Some (rt_thread_self k),
                    mutex_original_priority := current_priority (threads k (rt_thread_self k)),
                    mutex_hold := mutex_hold mutex + 1\<rparr>"
  let ?k = "set_thread (rt_thread_self k) (\<lambda>th. th\<lparr>error := RT_EOK\<rparr>) k"
  have t: "rt_mutex_take mutex time k = Return RT_EOK (?m, ?k)"
    using assms(1,2) by (rule mutex_take_free)
  have "mutex_owner ?m = Some (rt_thread_self ?k)" by (simp add: rt_thread_self_def)
  from mutex_takes_owner [OF this, of n time] obtain k1 where
    k1: "mutex_takes n time (?m, ?k) =
           Return RT_EOK (?m\<lparr>mutex_hold := mutex_hold ?m + of_nat n\<rparr>, k1)"
      "rt_thread_self k1 = rt_thread_self k" by (auto simp: rt_thread_self_def)
  let ?m1 = "?m\<lparr>mutex_hold := mutex_hold ?m + of_nat n\<rparr>"
  have takes: "mutex_takes N time (mutex, k) = Return RT_EOK (?m1, k1)"
    using k1(1) by (simp only: N mutex_takes_Suc [OF t])
  have "mutex_owner ?m1 = Some (rt_thread_self k1)" "mutex_hold ?m1 = of_nat (Suc n)"
    "Suc n < 2 ^ 32" "wait_queue_counted ?m1"
    using assms(3,4,6) k1(2) by (simp_all add: N wait_queue_counted_def)
  from mutex_releases_owner [OF this] obtain m2 k2 where
    "mutex_releases (Suc n) (?m1, k1) = Return RT_EOK (m2, k2)"
    "mutex_hold m2 = 0" "mutex_value m2 = mutex_value ?m1 + 1" by blast
  with takes show ?thesis
    using k1(2) assms(3) by (auto simp: N)
qed

text \<open>
  C6. N takes followed by N releases by one thread end with \<open>hold\<close> 0 and the value 1
  where the first take goes through the branch of the available mutex
  (\<open>mutex_recursion_fresh\<close>, for N below \<open>2 ^ 32\<close>). They do not where the thread that
  takes the free mutex is the thread that released it last: \<open>rt_mutex_release\<close> left it as
  the owner, the take of the free mutex only counts \<open>hold\<close>, and the release that follows
  brings the value to 2. The run below starts from \<open>rt_mutex_init\<close>, in any kernel state:
  one take and one release leave the mutex free (value 1, hold 0); one more take and one
  more release leave the value 2.
\<close>

theorem rt_mutex_retake_after_release:
  "\<exists>m1 k1 m2 k2.
     and_then (mutex_takes 1 time (rt_mutex_init mutex0 flg, k)) (mutex_releases 1)
       = Return RT_EOK (m1, k1)
     \<and> mutex_value m1 = 1 \<and> mutex_hold m1 = 0
     \<and> and_then (mutex_takes 1 time (m1, k1)) (mutex_releases 1) = Return RT_EOK (m2, k2)
     \<and> mutex_hold m2 = 0 \<and> mutex_value m2 = 2"
  by (simp add: and_then_def rt_mutex_take_def rt_mutex_release_def rt_mutex_init_def
      rt_ipc_object_init_def Let_def rt_thread_self_def word_sless_alt word_sle_eq)

section \<open>Wait queue: insertion by priority\<close>

lemma rt_ipc_object_suspend_appends:
  "suspend_thread (fst (rt_ipc_object_suspend ipc thread k)) = suspend_thread ipc @ [thread]"
  by (simp add: rt_ipc_object_suspend_def Let_def rt_list_insert_before_def
      split: ipc_flag.splits)

text \<open>
  C1. With the PRIO flag \<open>rt_ipc_object_suspend\<close> searches the position of the first
  waiter of numerically greater priority and then inserts before the list head, not
  before that position: the thread goes to the tail, as with the FIFO flag
  (\<open>rt_ipc_object_suspend_appends\<close>). On a PRIO semaphore thread 2 (priority 20) waits
  for, thread 1 (priority 5) blocks: the search stops at position 0, in front of thread
  2, the queue becomes 2, 1, and the release that follows wakes thread 2 and leaves
  thread 1, of the numerically smallest priority, suspended.
\<close>

theorem rt_ipc_object_suspend_prio_order:
  "flag sem_prio_L_waits = RT_IPC_FLAG_PRIO
   \<and> current_priority (threads kernel_L_waits 1) = 5
   \<and> current_priority (threads kernel_L_waits 2) = 20
   \<and> suitable_position (threads kernel_L_waits) 5 (suspend_thread sem_prio_L_waits) = 0
   \<and> suspend_thread (fst (rt_ipc_object_suspend sem_prio_L_waits 1 kernel_L_waits)) = [2, 1]
   \<and> (\<exists>sem1 k1 sem2 k2.
         rt_sem_take sem_prio_L_waits (- 1) kernel_L_waits = Blocked (sem1, k1)
         \<and> suspend_thread sem1 = [2, 1]
         \<and> rt_sem_release sem1 k1 = Return RT_EOK (sem2, k2)
         \<and> suspend_thread sem2 = [1]
         \<and> stat (threads k2 2) = RT_THREAD_READY
         \<and> stat (threads k2 1) = RT_THREAD_SUSPEND)"
  by (simp add: sem_prio_L_waits_def kernel_L_waits_def thread_at_def rt_sem_take_def
      rt_sem_release_def rt_ipc_object_suspend_def rt_ipc_object_resume_def
      rt_thread_suspend_def rt_thread_resume_def tlist_remove_def rt_list_remove_def
      rt_list_insert_before_def rt_schedule_insert_thread_def rt_schedule_remove_thread_def
      set_thread_def rt_thread_self_def Let_def word_sless_alt word_sle_eq)

section \<open>Semaphore: take that times out\<close>

text \<open>
  C4. The running thread takes a semaphore whose value is not positive, with a positive
  waiting time: the call blocks, the thread is suspended at the tail of the wait queue,
  the count is one more, and the thread timer is armed with the waiting time. With no
  release, the timer's callback \<open>rt_thread_timeout\<close> unlinks the thread and makes it
  ready; the rest of \<open>rt_sem_take\<close> then returns RT_ETIMEOUT with the count back at what
  it was before the call (0 when there was no other waiter).
\<close>

theorem rt_sem_take_timeout:
  assumes v: "\<not> 0 <s sem_value sem" and t: "0 <s time"
    and st: "stat (threads k (rt_thread_self k)) = RT_THREAD_READY"
  shows "\<exists>sem1 k1 sem2 k2.
           rt_sem_take sem time k = Blocked (sem1, k1)
           \<and> suspend_thread sem1 = suspend_thread sem @ [rt_thread_self k]
           \<and> suspend_thread_count sem1 = suspend_thread_count sem + 1
           \<and> stat (threads k1 (rt_thread_self k)) = RT_THREAD_SUSPEND
           \<and> timer_activated (threads k1 (rt_thread_self k))
           \<and> timer_init_tick (threads k1 (rt_thread_self k)) = time
           \<and> rt_thread_timeout (rt_thread_self k) (sem1, k1) = Some (sem2, k2)
           \<and> rt_thread_self k \<notin> set (suspend_thread sem2)
           \<and> stat (threads k2 (rt_thread_self k)) = RT_THREAD_READY
           \<and> rt_sem_take_resumed sem2 (rt_thread_self k) k2 =
               Return RT_ETIMEOUT
                 (sem2\<lparr>suspend_thread_count := suspend_thread_count sem\<rparr>, k2)"
proof -
  let ?t = "rt_thread_self k"
  from t have t0: "time \<noteq> 0" by (auto simp: word_sless_alt)
  have "\<exists>sem1 k1. rt_sem_take sem time k = Blocked (sem1, k1)"
    using v t0 by (auto simp: rt_sem_take_def Let_def split: prod.splits)
  then obtain sem1 k1 where take: "rt_sem_take sem time k = Blocked (sem1, k1)"
    by blast
  have s1: "suspend_thread sem1 = suspend_thread sem @ [?t]"
    "suspend_thread_count sem1 = suspend_thread_count sem + 1"
    "stat (threads k1 ?t) = RT_THREAD_SUSPEND"
    "timer_activated (threads k1 ?t)" "timer_init_tick (threads k1 ?t) = time"
    using take v t t0 st
    by (auto simp: rt_sem_take_def Let_def kernel_defs split: prod.splits ipc_flag.splits)
  have "\<exists>sem2 k2. rt_thread_timeout ?t (sem1, k1) = Some (sem2, k2)"
    using s1(3) by (auto simp: rt_thread_timeout_def split: prod.splits)
  then obtain sem2 k2 where tmo: "rt_thread_timeout ?t (sem1, k1) = Some (sem2, k2)"
    by blast
  have s2: "?t \<notin> set (suspend_thread sem2)" "stat (threads k2 ?t) = RT_THREAD_READY"
    "error (threads k2 ?t) = RT_ETIMEOUT"
    "suspend_thread_count sem2 = suspend_thread_count sem1"
    using tmo s1(3)
    by (auto simp: rt_thread_timeout_def kernel_defs Let_def split: prod.splits)
  have "rt_sem_take_resumed sem2 ?t k2 =
               Return RT_ETIMEOUT
                 (sem2\<lparr>suspend_thread_count := suspend_thread_count sem\<rparr>, k2)"
    using s2 s1(2) by (simp add: rt_sem_take_resumed_def rt_ipc_object_decrease_def)
  with take s1 tmo s2 show ?thesis by blast
qed

theorem rt_sem_take_timeout_witness:
  "\<not> 0 <s sem_value (sem_of 0) \<and> 0 <s (100 :: 32 word)
   \<and> stat (threads kernel_HL (rt_thread_self kernel_HL)) = RT_THREAD_READY
   \<and> rt_thread_self kernel_HL = 1
   \<and> (\<exists>sem1 k1 sem2 k2.
         rt_sem_take (sem_of 0) 100 kernel_HL = Blocked (sem1, k1)
         \<and> suspend_thread sem1 = [1] \<and> suspend_thread_count sem1 = 1
         \<and> timer_init_tick (threads k1 1) = 100
         \<and> rt_thread_timeout 1 (sem1, k1) = Some (sem2, k2)
         \<and> rt_sem_take_resumed sem2 1 k2 =
             Return RT_ETIMEOUT (sem2\<lparr>suspend_thread_count := 0\<rparr>, k2))"
proof -
  have a: "\<not> 0 <s sem_value (sem_of 0)" "0 <s (100 :: 32 word)"
    "stat (threads kernel_HL (rt_thread_self kernel_HL)) = RT_THREAD_READY"
    "rt_thread_self kernel_HL = 1" "suspend_thread (sem_of 0) = []"
    "suspend_thread_count (sem_of 0) = 0"
    by (simp_all add: sem_of_def kernel_HL_def thread_at_def rt_thread_self_def
        word_sless_alt)
  from rt_sem_take_timeout [OF a(1,2,3)] a(4,5,6)
  have "\<exists>sem1 k1 sem2 k2.
         rt_sem_take (sem_of 0) 100 kernel_HL = Blocked (sem1, k1)
         \<and> suspend_thread sem1 = [1] \<and> suspend_thread_count sem1 = 1
         \<and> timer_init_tick (threads k1 1) = 100
         \<and> rt_thread_timeout 1 (sem1, k1) = Some (sem2, k2)
         \<and> rt_sem_take_resumed sem2 1 k2 =
             Return RT_ETIMEOUT (sem2\<lparr>suspend_thread_count := 0\<rparr>, k2)"
    by (simp only: append_Nil add_0) blast
  with a show ?thesis by blast
qed

section \<open>Event flags: send\<close>

lemma filter_removeAll_notin:
  "filter (\<lambda>x. x \<notin> A) (removeAll w xs) = filter (\<lambda>x. x \<notin> insert w A) xs"
  by (induction xs) auto

lemma event_status_satisfied:
  "(event_status th s = RT_EOK) = waiter_satisfied th s"
  by (simp add: event_status_def waiter_satisfied_def)

lemma woken_subset: "set (woken_waiters ths ws s) \<subseteq> set ws"
  by (induction ws arbitrary: s) auto

lemma woken_cong:
  "(\<And>w. w \<in> set ws \<Longrightarrow> event_info (ths' w) = event_info (ths w)
       \<and> event_set (ths' w) = event_set (ths w)) \<Longrightarrow>
   woken_waiters ths' ws s = woken_waiters ths ws s
   \<and> set_after_waiters ths' ws s = set_after_waiters ths ws s"
  by (induction ws arbitrary: s) (simp_all add: waiter_satisfied_def set_after_waiter_def)

lemma resume_suspended:
  "stat (threads k w) = RT_THREAD_SUSPEND \<Longrightarrow>
   rt_thread_resume w (ev, k) =
     (RT_EOK, ev\<lparr>suspend_thread := removeAll w (suspend_thread ev)\<rparr>, kernel_after_resume w k)"
  by (simp add: rt_thread_resume_def tlist_remove_def rt_list_remove_def kernel_after_resume_def)

lemma threads_kernel_after_resume:
  "threads (kernel_after_resume w k) = (threads k)(w := woken_thread (threads k w))"
  by (simp add: kernel_after_resume_def rt_schedule_insert_thread_def set_thread_def Let_def
      woken_thread_def)

lemma ready_kernel_after_resume:
  "w \<in> set (rt_thread_priority_table (kernel_after_resume w k) (current_priority (threads k w)))"
  "x \<noteq> w \<Longrightarrow> x \<in> set (rt_thread_priority_table k p) \<Longrightarrow>
     x \<in> set (rt_thread_priority_table (kernel_after_resume w k) p)"
  by (auto simp: kernel_after_resume_def rt_schedule_insert_thread_def set_thread_def Let_def
      rt_list_insert_before_def rt_list_remove_def)

lemma event_search_Cons_woken:
  assumes "waiter_satisfied (threads k w) (ev_set event)"
    "stat (threads k w) = RT_THREAD_SUSPEND"
  shows "event_search (w # ws) (event, k) =
           event_search ws
             (event\<lparr>suspend_thread := removeAll w (suspend_thread event),
                    suspend_thread_count := suspend_thread_count event - 1,
                    ev_set := set_after_waiter (threads k w) (ev_set event)\<rparr>,
              kernel_after_resume w k)"
  using assms
  by (simp add: event_status_satisfied resume_suspended threads_kernel_after_resume Let_def
      set_after_waiter_def woken_thread_def)

lemma event_search_spec:
  assumes "distinct ws" "\<forall>w\<in>set ws. stat (threads k w) = RT_THREAD_SUSPEND"
    "event_search ws (event, k) = (event', k')"
  shows "ev_set event' = set_after_waiters (threads k) ws (ev_set event)
     \<and> suspend_thread event' =
         filter (\<lambda>w. w \<notin> set (woken_waiters (threads k) ws (ev_set event)))
           (suspend_thread event)
     \<and> suspend_thread_count event' =
         suspend_thread_count event
           - of_nat (length (woken_waiters (threads k) ws (ev_set event)))
     \<and> flag event' = flag event
     \<and> rt_current_thread k' = rt_current_thread k
     \<and> (\<forall>w. threads k' w =
            (if w \<in> set (woken_waiters (threads k) ws (ev_set event))
             then woken_thread (threads k w) else threads k w))"
  using assms
proof (induction ws arbitrary: event k)
  case Nil
  then show ?case by simp
next
  case (Cons w ws)
  show ?case
  proof (cases "waiter_satisfied (threads k w) (ev_set event)")
    case False
    then have "event_search ws (event, k) = (event', k')"
      using Cons.prems(3) by (simp add: event_status_satisfied)
    from Cons.IH [OF _ _ this] Cons.prems(1,2) False show ?thesis
      by (simp add: set_after_waiter_def)
  next
    case True
    let ?k1 = "kernel_after_resume w k"
    let ?e3 = "event\<lparr>suspend_thread := removeAll w (suspend_thread event),
                     suspend_thread_count := suspend_thread_count event - 1,
                     ev_set := set_after_waiter (threads k w) (ev_set event)\<rparr>"
    have st: "stat (threads k w) = RT_THREAD_SUSPEND" using Cons.prems(2) by simp
    have th1: "threads ?k1 = (threads k)(w := woken_thread (threads k w))"
      by (rule threads_kernel_after_resume)
    have cur: "rt_current_thread ?k1 = rt_current_thread k"
      by (simp add: kernel_after_resume_def)
    have es: "event_search ws (?e3, ?k1) = (event', k')"
      using Cons.prems(3) event_search_Cons_woken [OF True st] by simp
    have d: "distinct ws" "w \<notin> set ws" using Cons.prems(1) by simp_all
    have sus: "\<forall>x\<in>set ws. stat (threads ?k1 x) = RT_THREAD_SUSPEND"
      using Cons.prems(2) d(2) by (auto simp: th1)
    have cong: "woken_waiters (threads ?k1) ws s = woken_waiters (threads k) ws s
           \<and> set_after_waiters (threads ?k1) ws s = set_after_waiters (threads k) ws s" for s
      by (rule woken_cong) (simp add: th1 woken_thread_def)
    let ?W = "woken_waiters (threads k) ws (set_after_waiter (threads k w) (ev_set event))"
    have wW: "w \<notin> set ?W" using woken_subset [of "threads k" ws] d(2) by blast
    from Cons.IH [OF d(1) sus es]
    have ih: "ev_set event' =
                set_after_waiters (threads k) ws (set_after_waiter (threads k w) (ev_set event))"
      "suspend_thread event' = filter (\<lambda>x. x \<notin> set ?W) (removeAll w (suspend_thread event))"
      "suspend_thread_count event' = suspend_thread_count event - 1 - of_nat (length ?W)"
      "flag event' = flag event" "rt_current_thread k' = rt_current_thread k"
      "\<forall>x. threads k' x = (if x \<in> set ?W then woken_thread (threads ?k1 x) else threads ?k1 x)"
      by (simp_all add: cong cur)
    have f: "filter (\<lambda>x. x \<notin> set ?W) (removeAll w (suspend_thread event))
           = filter (\<lambda>x. x \<notin> set (w # ?W)) (suspend_thread event)"
      by (simp add: filter_removeAll_notin)
    show ?thesis
      using True ih wW
      by (auto simp: f th1)
  qed
qed

lemma event_search_ready:
  assumes "distinct ws" "\<forall>w\<in>set ws. stat (threads k w) = RT_THREAD_SUSPEND"
    "event_search ws (event, k) = (event', k')"
  shows "(\<forall>p x. x \<notin> set ws \<longrightarrow> x \<in> set (rt_thread_priority_table k p)
              \<longrightarrow> x \<in> set (rt_thread_priority_table k' p))
       \<and> (\<forall>w\<in>set (woken_waiters (threads k) ws (ev_set event)).
             w \<in> set (rt_thread_priority_table k' (current_priority (threads k w))))"
  using assms
proof (induction ws arbitrary: event k)
  case Nil
  then show ?case by simp
next
  case (Cons w ws)
  show ?case
  proof (cases "waiter_satisfied (threads k w) (ev_set event)")
    case False
    then have "event_search ws (event, k) = (event', k')"
      using Cons.prems(3) by (simp add: event_status_satisfied)
    from Cons.IH [OF _ _ this] Cons.prems(1,2) False show ?thesis
      by (simp add: set_after_waiter_def)
  next
    case True
    let ?k1 = "kernel_after_resume w k"
    let ?e3 = "event\<lparr>suspend_thread := removeAll w (suspend_thread event),
                     suspend_thread_count := suspend_thread_count event - 1,
                     ev_set := set_after_waiter (threads k w) (ev_set event)\<rparr>"
    have st: "stat (threads k w) = RT_THREAD_SUSPEND" using Cons.prems(2) by simp
    have th1: "threads ?k1 = (threads k)(w := woken_thread (threads k w))"
      by (rule threads_kernel_after_resume)
    have es: "event_search ws (?e3, ?k1) = (event', k')"
      using Cons.prems(3) event_search_Cons_woken [OF True st] by simp
    have d: "distinct ws" "w \<notin> set ws" using Cons.prems(1) by simp_all
    have sus: "\<forall>x\<in>set ws. stat (threads ?k1 x) = RT_THREAD_SUSPEND"
      using Cons.prems(2) d(2) by (auto simp: th1)
    have cong: "woken_waiters (threads ?k1) ws s = woken_waiters (threads k) ws s" for s
      using woken_cong [of ws "threads ?k1" "threads k" s] by (simp add: th1 woken_thread_def)
    let ?W = "woken_waiters (threads k) ws (set_after_waiter (threads k w) (ev_set event))"
    from Cons.IH [OF d(1) sus es]
    have ih: "\<forall>p x. x \<notin> set ws \<longrightarrow> x \<in> set (rt_thread_priority_table ?k1 p)
              \<longrightarrow> x \<in> set (rt_thread_priority_table k' p)"
      "\<forall>x\<in>set ?W. x \<in> set (rt_thread_priority_table k' (current_priority (threads ?k1 x)))"
      by (simp_all add: cong)
    have wW: "w \<notin> set ?W" using woken_subset [of "threads k" ws] d(2) by blast
    have a: "\<forall>p x. x \<notin> set (w # ws) \<longrightarrow> x \<in> set (rt_thread_priority_table k p)
              \<longrightarrow> x \<in> set (rt_thread_priority_table k' p)"
      using ih(1) ready_kernel_after_resume(2) [of _ w k] by auto
    have b: "w \<in> set (rt_thread_priority_table k' (current_priority (threads k w)))"
      using ih(1) d(2) ready_kernel_after_resume(1) [of w k] by blast
    have c: "\<forall>x\<in>set ?W. x \<in> set (rt_thread_priority_table k' (current_priority (threads k x)))"
    proof
      fix x assume x: "x \<in> set ?W"
      with wW have "x \<noteq> w" by auto
      with ih(2) x show "x \<in> set (rt_thread_priority_table k' (current_priority (threads k x)))"
        by (auto simp: th1)
    qed
    from a b c True show ?thesis by simp
  qed
qed


lemma woken_waiters_iff:
  "distinct ws \<Longrightarrow>
   w \<in> set (woken_waiters ths ws s) \<longleftrightarrow>
     (\<exists>pre post. ws = pre @ w # post
        \<and> waiter_satisfied (ths w) (set_after_waiters ths pre s))"
proof (induction ws arbitrary: s)
  case Nil
  then show ?case by simp
next
  case (Cons x xs)
  show ?case
  proof (cases "w = x")
    case True
    have "w \<notin> set (woken_waiters ths xs (set_after_waiter (ths x) s))"
      using woken_subset [of ths xs] Cons.prems True by auto
    moreover have "(\<exists>pre post. x # xs = pre @ w # post
        \<and> waiter_satisfied (ths w) (set_after_waiters ths pre s))
        \<longleftrightarrow> waiter_satisfied (ths w) s"
      using Cons.prems True by (auto simp: Cons_eq_append_conv)
    ultimately show ?thesis using True by simp
  next
    case False
    have "(\<exists>pre post. x # xs = pre @ w # post
        \<and> waiter_satisfied (ths w) (set_after_waiters ths pre s))
        \<longleftrightarrow> (\<exists>pre post. xs = pre @ w # post
        \<and> waiter_satisfied (ths w) (set_after_waiters ths pre (set_after_waiter (ths x) s)))"
      (is "?L \<longleftrightarrow> ?R")
    proof
      assume ?L
      then obtain pre post where
        e: "x # xs = pre @ w # post"
          "waiter_satisfied (ths w) (set_after_waiters ths pre s)" by blast
      with False obtain pre' where p: "pre = x # pre'" by (cases pre) auto
      with e have "xs = pre' @ w # post"
        "waiter_satisfied (ths w) (set_after_waiters ths pre' (set_after_waiter (ths x) s))"
        by simp_all
      then show ?R by blast
    next
      assume ?R
      then obtain pre post where
        "xs = pre @ w # post"
        "waiter_satisfied (ths w) (set_after_waiters ths pre (set_after_waiter (ths x) s))"
        by blast
      then have "x # xs = (x # pre) @ w # post"
        "waiter_satisfied (ths w) (set_after_waiters ths (x # pre) s)" by simp_all
      then show ?L by blast
    qed
    with Cons.IH [of "set_after_waiter (ths x) s"] Cons.prems False show ?thesis by simp
  qed
qed


text \<open>
  C7. \<open>rt_event_send\<close> with the empty set returns RT_ERROR and changes nothing. With
  any other set it ORs the set into \<open>ev_set\<close> and returns RT_EOK after the scan. A
  waiter is woken exactly when it is satisfied (AND mode: all its bits; OR mode: one of
  them) by the set as it stands when the scan reaches it, that is after the CLEARs of the
  woken waiters in front of it. The woken waiters leave the wait queue, READY and on the
  ready list of their priority, the others stay as they are; the count drops by the
  number of woken waiters; the final set is the sent set with the bits of every woken
  CLEAR waiter taken out. The waiters are suspended threads, each once in the queue, and
  an object whose count is 0 has an empty queue.
\<close>

theorem rt_event_send_scan:
  assumes d: "distinct (suspend_thread event)"
    and s: "\<forall>w\<in>set (suspend_thread event). stat (threads k w) = RT_THREAD_SUSPEND"
    and c: "suspend_thread_count event = 0 \<longrightarrow> suspend_thread event = []"
  shows "(st = 0 \<longrightarrow> rt_event_send event st k = Return RT_ERROR (event, k))
    \<and> (st \<noteq> 0 \<longrightarrow>
        (\<exists>event' k'. rt_event_send event st k = Return RT_EOK (event', k')
          \<and> ev_set event' =
              set_after_waiters (threads k) (suspend_thread event) (ev_set event OR st)
          \<and> suspend_thread event' =
              filter (\<lambda>w. w \<notin> set (woken_waiters (threads k) (suspend_thread event)
                                      (ev_set event OR st)))
                (suspend_thread event)
          \<and> suspend_thread_count event' =
              suspend_thread_count event
                - of_nat (length (woken_waiters (threads k) (suspend_thread event)
                                    (ev_set event OR st)))
          \<and> (\<forall>w. threads k' w =
                (if w \<in> set (woken_waiters (threads k) (suspend_thread event)
                                (ev_set event OR st))
                 then woken_thread (threads k w) else threads k w))
          \<and> (\<forall>w\<in>set (woken_waiters (threads k) (suspend_thread event) (ev_set event OR st)).
                w \<in> set (rt_thread_priority_table k' (current_priority (threads k w))))))
    \<and> (\<forall>w. w \<in> set (woken_waiters (threads k) (suspend_thread event) (ev_set event OR st))
          \<longleftrightarrow> (\<exists>pre post. suspend_thread event = pre @ w # post
                \<and> waiter_satisfied (threads k w)
                     (set_after_waiters (threads k) pre (ev_set event OR st))))"
proof (intro conjI impI)
  assume "st = 0"
  then show "rt_event_send event st k = Return RT_ERROR (event, k)"
    by (simp add: rt_event_send_def)
next
  assume nz: "st \<noteq> 0"
  let ?e1 = "event\<lparr>ev_set := ev_set event OR st\<rparr>"
  let ?ws = "suspend_thread event"
  obtain event' k' where es: "event_search ?ws (?e1, k) = (event', k')"
    by (cases "event_search ?ws (?e1, k)")
  have send: "rt_event_send event st k = Return RT_EOK (event', k')"
  proof (cases "suspend_thread_count event = 0")
    case True
    with c have "?ws = []" by simp
    with es have "event' = ?e1" "k' = k" by simp_all
    with True nz show ?thesis by (simp add: rt_event_send_def Let_def)
  next
    case False
    then have "0 < suspend_thread_count event" by (simp add: word_neq_0_conv)
    with es nz show ?thesis by (simp add: rt_event_send_def Let_def)
  qed
  from event_search_spec [OF d s es] event_search_ready [OF d s es] send
  show "\<exists>event' k'. rt_event_send event st k = Return RT_EOK (event', k')
          \<and> ev_set event' =
              set_after_waiters (threads k) (suspend_thread event) (ev_set event OR st)
          \<and> suspend_thread event' =
              filter (\<lambda>w. w \<notin> set (woken_waiters (threads k) (suspend_thread event)
                                      (ev_set event OR st)))
                (suspend_thread event)
          \<and> suspend_thread_count event' =
              suspend_thread_count event
                - of_nat (length (woken_waiters (threads k) (suspend_thread event)
                                    (ev_set event OR st)))
          \<and> (\<forall>w. threads k' w =
                (if w \<in> set (woken_waiters (threads k) (suspend_thread event)
                                (ev_set event OR st))
                 then woken_thread (threads k w) else threads k w))
          \<and> (\<forall>w\<in>set (woken_waiters (threads k) (suspend_thread event) (ev_set event OR st)).
                w \<in> set (rt_thread_priority_table k' (current_priority (threads k w))))"
    by simp
next
  show "\<forall>w. w \<in> set (woken_waiters (threads k) (suspend_thread event) (ev_set event OR st))
          \<longleftrightarrow> (\<exists>pre post. suspend_thread event = pre @ w # post
                \<and> waiter_satisfied (threads k w)
                     (set_after_waiters (threads k) pre (ev_set event OR st)))"
    using woken_waiters_iff [OF d] by blast
qed

theorem rt_event_send_scan_witness:
  "suspend_thread (event_waiting 1) = [2]
   \<and> stat (threads kernel_ev 2) = RT_THREAD_SUSPEND
   \<and> suspend_thread_count (event_waiting 1) = 1
   \<and> event_set (threads kernel_ev 2) = 3
   \<and> (\<exists>event' k'. rt_event_send (event_waiting 1) 2 kernel_ev = Return RT_EOK (event', k')
         \<and> ev_set event' = 0 \<and> suspend_thread event' = []
         \<and> suspend_thread_count event' = 0
         \<and> stat (threads k' 2) = RT_THREAD_READY)
   \<and> (\<exists>event' k'. rt_event_send (event_waiting 0) 1 kernel_ev = Return RT_EOK (event', k')
         \<and> ev_set event' = 1 \<and> suspend_thread event' = [2]
         \<and> suspend_thread_count event' = 1
         \<and> stat (threads k' 2) = RT_THREAD_SUSPEND)"
proof -
  have a: "distinct (suspend_thread (event_waiting s))"
    "\<forall>w\<in>set (suspend_thread (event_waiting s)). stat (threads kernel_ev w) = RT_THREAD_SUSPEND"
    "suspend_thread_count (event_waiting s) = 0 \<longrightarrow> suspend_thread (event_waiting s) = []"
    for s
    by (simp_all add: event_waiting_def kernel_ev_def thread_at_def)
  have b: "suspend_thread (event_waiting 1) = [2]"
    "stat (threads kernel_ev 2) = RT_THREAD_SUSPEND"
    "suspend_thread_count (event_waiting 1) = 1"
    "event_set (threads kernel_ev 2) = 3"
    by (simp_all add: event_waiting_def kernel_ev_def thread_at_def)
  have w1: "waiter_satisfied (threads kernel_ev 2) 3"
    "set_after_waiter (threads kernel_ev 2) 3 = 0"
    "\<not> waiter_satisfied (threads kernel_ev 2) 1"
    "set_after_waiter (threads kernel_ev 2) 1 = 1"
    by (simp_all add: kernel_ev_def thread_at_def waiter_satisfied_def set_after_waiter_def
        RT_EVENT_FLAG_AND_def RT_EVENT_FLAG_OR_def RT_EVENT_FLAG_CLEAR_def)
  from rt_event_send_scan [where event = "event_waiting 1" and k = kernel_ev and st = 2, OF a,
      THEN conjunct2, THEN conjunct1]
  obtain e1 k1 where
    "rt_event_send (event_waiting 1) 2 kernel_ev = Return RT_EOK (e1, k1)"
    "ev_set e1 = 0" "suspend_thread e1 = []" "suspend_thread_count e1 = 0"
    "threads k1 2 = woken_thread (threads kernel_ev 2)"
    by (auto simp: event_waiting_def w1)
  then have 1: "\<exists>event' k'. rt_event_send (event_waiting 1) 2 kernel_ev
                   = Return RT_EOK (event', k')
         \<and> ev_set event' = 0 \<and> suspend_thread event' = []
         \<and> suspend_thread_count event' = 0
         \<and> stat (threads k' 2) = RT_THREAD_READY"
    by (simp add: woken_thread_def)
  from rt_event_send_scan [where event = "event_waiting 0" and k = kernel_ev and st = 1, OF a,
      THEN conjunct2, THEN conjunct1]
  obtain e2 k2 where
    "rt_event_send (event_waiting 0) 1 kernel_ev = Return RT_EOK (e2, k2)"
    "ev_set e2 = 1" "suspend_thread e2 = [2]" "suspend_thread_count e2 = 1"
    "threads k2 2 = threads kernel_ev 2"
    by (auto simp: event_waiting_def w1)
  then have 2: "\<exists>event' k'. rt_event_send (event_waiting 0) 1 kernel_ev
                   = Return RT_EOK (event', k')
         \<and> ev_set event' = 1 \<and> suspend_thread event' = [2]
         \<and> suspend_thread_count event' = 1
         \<and> stat (threads k' 2) = RT_THREAD_SUSPEND"
    using b(2) by simp
  from b 1 2 show ?thesis by blast
qed


section \<open>Mailbox: send\<close>

lemma mb_send_full:
  "mb_entry mb = mb_size mb \<Longrightarrow> rt_mb_send mb val k = Return RT_EFULL (mb, k)"
  by (simp add: rt_mb_send_def)

lemma mb_send_not_full:
  "mb_entry mb \<noteq> mb_size mb \<Longrightarrow> rt_mb_send mb val k \<noteq> Return RT_EFULL s"
  by (auto simp: rt_mb_send_def Let_def split: option.splits)

lemma mb_send_stores:
  assumes "mb_entry mb < mb_size mb" "suspend_thread_count mb = 0"
  shows "rt_mb_send mb val k =
           Return RT_EOK
             (mb\<lparr>mb_msg_pool := (mb_msg_pool mb)(mb_in_offset mb := val),
                 mb_in_offset := (mb_in_offset mb + 1) mod mb_size mb,
                 mb_entry := mb_entry mb + 1\<rparr>, k)"
  using assms by (auto simp: rt_mb_send_def Let_def)

lemma mb_send_wakes:
  assumes "mb_entry mb < mb_size mb" "suspend_thread mb = t # ts"
    "0 < suspend_thread_count mb" "stat (threads k t) = RT_THREAD_SUSPEND"
  shows "\<exists>k'. rt_mb_send mb val k =
           Return RT_EOK
             (mb\<lparr>mb_msg_pool := (mb_msg_pool mb)(mb_in_offset mb := val),
                 mb_in_offset := (mb_in_offset mb + 1) mod mb_size mb,
                 mb_entry := mb_entry mb + 1,
                 suspend_thread := rt_list_remove t ts,
                 suspend_thread_count := suspend_thread_count mb - 1\<rparr>, k')
         \<and> stat (threads k' t) = RT_THREAD_READY
         \<and> t \<in> set (rt_thread_priority_table k' (current_priority (threads k t)))
         \<and> (\<forall>x. x \<noteq> t \<longrightarrow> threads k' x = threads k x)"
  using assms
  by (auto simp: rt_mb_send_def Let_def rt_ipc_object_resume_def rt_thread_resume_def
      tlist_remove_def rt_list_remove_def rt_schedule_insert_thread_def set_thread_def
      rt_list_insert_before_def)

lemma mb_scenario:
  "\<exists>mb1 mb2 mb3 mb4.
     rt_mb_send (rt_mb_init mb0 pool 2 flg) v1 k = Return RT_EOK (mb1, k)
     \<and> rt_mb_send mb1 v2 k = Return RT_EOK (mb2, k)
     \<and> rt_mb_send mb2 v3 k = Return RT_EFULL (mb2, k)
     \<and> rt_mb_recv mb2 v0 timeout k = Return RT_EOK (v1, mb3, k)
     \<and> mb_entry mb3 = 1
     \<and> rt_mb_send mb3 v4 k = Return RT_EOK (mb4, k)
     \<and> mb_entry mb4 = 2"
  by (simp add: rt_mb_send_def rt_mb_recv_def mb_fill_def rt_mb_init_def rt_ipc_object_init_def Let_def)


text \<open>
  C8. \<open>rt_mb_send\<close> returns RT_EFULL when \<open>entry\<close> equals \<open>size\<close>, with the mailbox and
  the kernel as they were, and in no other case. Below capacity it stores the value at
  \<open>msg_pool[in_offset]\<close>, advances \<open>in_offset\<close> modulo \<open>size\<close> and increments \<open>entry\<close>;
  with an empty wait queue nothing else changes, and with a waiter at the head of the
  queue that waiter alone is resumed (READY, on the ready list of its priority, out of the
  queue, the count one less). The count agrees with the queue. On a mailbox of capacity 2,
  as \<open>rt_mb_init\<close> leaves it, two sends succeed, the third returns RT_EFULL, a receive
  gives the first value back, and one more send succeeds.
\<close>

theorem rt_mb_send_ring:
  "(mb_entry mb = mb_size mb \<longrightarrow> rt_mb_send mb val k = Return RT_EFULL (mb, k))
   \<and> (mb_entry mb \<noteq> mb_size mb \<longrightarrow> (\<forall>s. rt_mb_send mb val k \<noteq> Return RT_EFULL s))
   \<and> (mb_entry mb < mb_size mb \<and> wait_queue_counted mb \<and> suspend_thread mb = [] \<longrightarrow>
        rt_mb_send mb val k =
          Return RT_EOK
            (mb\<lparr>mb_msg_pool := (mb_msg_pool mb)(mb_in_offset mb := val),
                mb_in_offset := (mb_in_offset mb + 1) mod mb_size mb,
                mb_entry := mb_entry mb + 1\<rparr>, k))
   \<and> (mb_entry mb < mb_size mb \<and> wait_queue_counted mb \<and> suspend_thread mb = t # ts
        \<and> stat (threads k t) = RT_THREAD_SUSPEND \<longrightarrow>
        (\<exists>k'. rt_mb_send mb val k =
           Return RT_EOK
             (mb\<lparr>mb_msg_pool := (mb_msg_pool mb)(mb_in_offset mb := val),
                 mb_in_offset := (mb_in_offset mb + 1) mod mb_size mb,
                 mb_entry := mb_entry mb + 1,
                 suspend_thread := rt_list_remove t ts,
                 suspend_thread_count := suspend_thread_count mb - 1\<rparr>, k')
         \<and> stat (threads k' t) = RT_THREAD_READY
         \<and> t \<in> set (rt_thread_priority_table k' (current_priority (threads k t)))
         \<and> (\<forall>x. x \<noteq> t \<longrightarrow> threads k' x = threads k x)))
   \<and> (\<exists>mb1 mb2 mb3 mb4.
         rt_mb_send (rt_mb_init mb0 pool 2 flg) v1 k = Return RT_EOK (mb1, k)
         \<and> rt_mb_send mb1 v2 k = Return RT_EOK (mb2, k)
         \<and> rt_mb_send mb2 v3 k = Return RT_EFULL (mb2, k)
         \<and> rt_mb_recv mb2 v0 timeout k = Return RT_EOK (v1, mb3, k)
         \<and> mb_entry mb3 = 1
         \<and> rt_mb_send mb3 v4 k = Return RT_EOK (mb4, k)
         \<and> mb_entry mb4 = 2)"
proof (intro conjI impI allI)
  show "mb_entry mb = mb_size mb \<Longrightarrow> rt_mb_send mb val k = Return RT_EFULL (mb, k)"
    by (rule mb_send_full)
  show "mb_entry mb \<noteq> mb_size mb \<Longrightarrow> rt_mb_send mb val k \<noteq> Return RT_EFULL s" for s
    by (rule mb_send_not_full)
  show "\<exists>mb1 mb2 mb3 mb4.
         rt_mb_send (rt_mb_init mb0 pool 2 flg) v1 k = Return RT_EOK (mb1, k)
         \<and> rt_mb_send mb1 v2 k = Return RT_EOK (mb2, k)
         \<and> rt_mb_send mb2 v3 k = Return RT_EFULL (mb2, k)
         \<and> rt_mb_recv mb2 v0 timeout k = Return RT_EOK (v1, mb3, k)
         \<and> mb_entry mb3 = 1
         \<and> rt_mb_send mb3 v4 k = Return RT_EOK (mb4, k)
         \<and> mb_entry mb4 = 2"
    by (rule mb_scenario)
next
  assume a: "mb_entry mb < mb_size mb \<and> wait_queue_counted mb \<and> suspend_thread mb = []"
  then have "suspend_thread_count mb = 0"
    by (auto simp: wait_queue_counted_def unat_0_iff)
  with a show "rt_mb_send mb val k =
          Return RT_EOK
            (mb\<lparr>mb_msg_pool := (mb_msg_pool mb)(mb_in_offset mb := val),
                mb_in_offset := (mb_in_offset mb + 1) mod mb_size mb,
                mb_entry := mb_entry mb + 1\<rparr>, k)"
    by (simp add: mb_send_stores)
next
  assume a: "mb_entry mb < mb_size mb \<and> wait_queue_counted mb \<and> suspend_thread mb = t # ts
        \<and> stat (threads k t) = RT_THREAD_SUSPEND"
  then have "suspend_thread_count mb \<noteq> 0"
    by (auto simp: wait_queue_counted_def)
  then have "0 < suspend_thread_count mb" by (simp add: word_neq_0_conv)
  with a mb_send_wakes [of mb t ts k val]
  show "\<exists>k'. rt_mb_send mb val k =
           Return RT_EOK
             (mb\<lparr>mb_msg_pool := (mb_msg_pool mb)(mb_in_offset mb := val),
                 mb_in_offset := (mb_in_offset mb + 1) mod mb_size mb,
                 mb_entry := mb_entry mb + 1,
                 suspend_thread := rt_list_remove t ts,
                 suspend_thread_count := suspend_thread_count mb - 1\<rparr>, k')
         \<and> stat (threads k' t) = RT_THREAD_READY
         \<and> t \<in> set (rt_thread_priority_table k' (current_priority (threads k t)))
         \<and> (\<forall>x. x \<noteq> t \<longrightarrow> threads k' x = threads k x)"
    by blast
qed

theorem rt_mb_send_ring_witness:
  "mb_entry (mailbox_L_waits\<lparr>mb_entry := 2\<rparr>) = mb_size (mailbox_L_waits\<lparr>mb_entry := 2\<rparr>)
   \<and> rt_mb_send (mailbox_L_waits\<lparr>mb_entry := 2\<rparr>) 7 kernel_L_waits
       = Return RT_EFULL (mailbox_L_waits\<lparr>mb_entry := 2\<rparr>, kernel_L_waits)
   \<and> mb_entry (rt_mb_init mailbox_blank (\<lambda>_. 0) 2 RT_IPC_FLAG_FIFO)
       < mb_size (rt_mb_init mailbox_blank (\<lambda>_. 0) 2 RT_IPC_FLAG_FIFO)
   \<and> wait_queue_counted (rt_mb_init mailbox_blank (\<lambda>_. 0) 2 RT_IPC_FLAG_FIFO)
   \<and> suspend_thread (rt_mb_init mailbox_blank (\<lambda>_. 0) 2 RT_IPC_FLAG_FIFO) = []
   \<and> (\<exists>mb'. rt_mb_send (rt_mb_init mailbox_blank (\<lambda>_. 0) 2 RT_IPC_FLAG_FIFO) 7 kernel_HL
               = Return RT_EOK (mb', kernel_HL)
         \<and> mb_msg_pool mb' 0 = 7 \<and> mb_in_offset mb' = 1 \<and> mb_entry mb' = 1)
   \<and> mb_entry mailbox_L_waits < mb_size mailbox_L_waits
   \<and> wait_queue_counted mailbox_L_waits \<and> suspend_thread mailbox_L_waits = [2]
   \<and> stat (threads kernel_L_waits 2) = RT_THREAD_SUSPEND
   \<and> (\<exists>mb' k'. rt_mb_send mailbox_L_waits 7 kernel_L_waits = Return RT_EOK (mb', k')
         \<and> mb_msg_pool mb' 0 = 7 \<and> mb_in_offset mb' = 1 \<and> mb_entry mb' = 1
         \<and> suspend_thread mb' = [] \<and> suspend_thread_count mb' = 0
         \<and> stat (threads k' 2) = RT_THREAD_READY)"
proof -
  let ?full = "mailbox_L_waits\<lparr>mb_entry := 2\<rparr>"
  let ?new = "rt_mb_init mailbox_blank (\<lambda>_. 0) 2 RT_IPC_FLAG_FIFO"
  have f: "mb_entry ?full = mb_size ?full" by (simp add: mailbox_L_waits_def)
  have n: "mb_entry ?new < mb_size ?new" "wait_queue_counted ?new" "suspend_thread ?new = []"
    "mb_in_offset ?new = 0" "mb_entry ?new = 0" "mb_size ?new = 2"
    by (simp_all add: rt_mb_init_def rt_ipc_object_init_def mailbox_blank_def
        wait_queue_counted_def)
  have w: "mb_entry mailbox_L_waits < mb_size mailbox_L_waits"
    "wait_queue_counted mailbox_L_waits" "suspend_thread mailbox_L_waits = [2]"
    "stat (threads kernel_L_waits 2) = RT_THREAD_SUSPEND"
    "mb_in_offset mailbox_L_waits = 0" "mb_entry mailbox_L_waits = 0"
    "mb_size mailbox_L_waits = 2" "suspend_thread_count mailbox_L_waits = 1"
    by (simp_all add: mailbox_L_waits_def kernel_L_waits_def thread_at_def
        wait_queue_counted_def)
  from rt_mb_send_ring [of ?full 7 kernel_L_waits] f
  have 1: "rt_mb_send ?full 7 kernel_L_waits = Return RT_EFULL (?full, kernel_L_waits)"
    by blast
  from rt_mb_send_ring [of ?new 7 kernel_HL, THEN conjunct2, THEN conjunct2, THEN conjunct1] n
  have 2: "\<exists>mb'. rt_mb_send ?new 7 kernel_HL = Return RT_EOK (mb', kernel_HL)
         \<and> mb_msg_pool mb' 0 = 7 \<and> mb_in_offset mb' = 1 \<and> mb_entry mb' = 1"
    by simp
  from rt_mb_send_ring [of mailbox_L_waits 7 kernel_L_waits 2 "[]",
      THEN conjunct2, THEN conjunct2, THEN conjunct2, THEN conjunct1] w
  have 3: "\<exists>mb' k'. rt_mb_send mailbox_L_waits 7 kernel_L_waits = Return RT_EOK (mb', k')
         \<and> mb_msg_pool mb' 0 = 7 \<and> mb_in_offset mb' = 1 \<and> mb_entry mb' = 1
         \<and> suspend_thread mb' = [] \<and> suspend_thread_count mb' = 0
         \<and> stat (threads k' 2) = RT_THREAD_READY"
    by (auto simp: rt_list_remove_def)
  from f n(1,2,3) w(1,2,3,4) 1 2 3 show ?thesis by blast
qed

section \<open>Message queue: the cells\<close>

lemma cell_chain_upd [simp]:
  "a \<notin> set cs \<Longrightarrow> cell_chain (nx(a := v)) p cs = cell_chain nx p cs"
  by (induction cs arbitrary: p) auto

lemma cell_chain_snoc:
  "cell_chain nx p qs \<Longrightarrow> qs \<noteq> [] \<Longrightarrow> distinct qs \<Longrightarrow> f \<notin> set qs \<Longrightarrow>
   cell_chain (nx(last qs := Some f, f := None)) p (qs @ [f])"
proof (induction qs arbitrary: p)
  case Nil
  then show ?case by simp
next
  case (Cons q qs)
  show ?case
  proof (cases "qs = []")
    case True
    with Cons.prems show ?thesis by auto
  next
    case False
    with Cons.prems have "cell_chain (nx(last qs := Some f, f := None)) (nx q) (qs @ [f])"
      by (intro Cons.IH) auto
    moreover have "q \<noteq> last qs" "q \<noteq> f" using Cons.prems False by auto
    ultimately show ?thesis using Cons.prems False by (simp add: fun_upd_def)
  qed
qed

lemma mq_wellformed_count:
  assumes "mq_wellformed mq fs qs"
  shows "unat (mq_entry mq) + length fs = unat (mq_max_msgs mq)"
proof -
  from assms have "distinct (fs @ qs)" "set (fs @ qs) = {0..<unat (mq_max_msgs mq)}"
    "unat (mq_entry mq) = length qs"
    by (simp_all add: mq_wellformed_def)
  then have "length (fs @ qs) = unat (mq_max_msgs mq)"
    using distinct_card [of "fs @ qs"] by simp
  with \<open>unat (mq_entry mq) = length qs\<close> show ?thesis by simp
qed

lemma mq_wake_fields:
  assumes "mq_wake mq k = Return r (mq', k')"
  shows "r = RT_EOK \<and> mq_next mq' = mq_next mq \<and> msg_queue_free mq' = msg_queue_free mq
     \<and> msg_queue_head mq' = msg_queue_head mq \<and> msg_queue_tail mq' = msg_queue_tail mq
     \<and> mq_entry mq' = mq_entry mq \<and> mq_max_msgs mq' = mq_max_msgs mq
     \<and> mq_msg_size mq' = mq_msg_size mq \<and> mq_payload mq' = mq_payload mq"
  using assms
  by (auto simp: mq_wake_def rt_ipc_object_resume_def rt_thread_resume_def tlist_remove_def
      split: if_splits option.splits list.splits)

lemma mq_entry_Suc:
  assumes "mq_wellformed mq (f # fs) qs"
  shows "unat (mq_entry mq + 1) = Suc (length qs)"
proof -
  from mq_wellformed_count [OF assms] have "unat (mq_entry mq) + Suc (length fs) = unat (mq_max_msgs mq)"
    by simp
  moreover have "unat (mq_max_msgs mq) < 2 ^ 32" using unsigned_less [of "mq_max_msgs mq"] by simp
  ultimately have "unat (mq_entry mq) + unat (1 :: 32 word) < 2 ^ LENGTH(32)" by simp
  then have "unat (mq_entry mq + 1) = unat (mq_entry mq) + unat (1 :: 32 word)"
    by (simp only: unat_add_lem)
  moreover from assms have "unat (mq_entry mq) = length qs" by (simp add: mq_wellformed_def)
  ultimately show ?thesis by simp
qed

lemma mq_link_tail_wellformed:
  assumes wf: "mq_wellformed mq (f # fs') qs"
  shows "mq_wellformed (mq_link_tail mq f buffer sz) fs' (qs @ [f])"
proof -
  from wf have d: "f \<notin> set fs'" "f \<notin> set qs" "distinct fs'" "distinct qs"
    "set fs' \<inter> set qs = {}"
    and ch: "cell_chain (mq_next mq) (msg_queue_head mq) qs"
      "cell_chain (mq_next mq) (mq_next mq f) fs'"
    by (auto simp: mq_wellformed_def)
  show ?thesis
  proof (cases "qs = []")
    case True
    with wf have "msg_queue_tail mq = None" "msg_queue_head mq = None"
      by (simp_all add: mq_wellformed_def)
    with wf True d mq_entry_Suc [OF wf] show ?thesis
      by (auto simp: mq_wellformed_def mq_link_tail_def Let_def)
  next
    case False
    with wf have t: "msg_queue_tail mq = Some (last qs)" "msg_queue_head mq \<noteq> None"
      by (auto simp: mq_wellformed_def neq_Nil_conv)
    have l: "last qs \<notin> set fs'" using d(5) False by auto
    from cell_chain_snoc [OF ch(1) False d(4,2)]
    have c: "cell_chain ((mq_next mq)(last qs := Some f, f := None))
               (msg_queue_head mq) (qs @ [f])" .
    have c2: "cell_chain ((mq_next mq)(last qs := Some f, f := None)) (mq_next mq f) fs'"
      using ch(2) d(1) l by simp
    from wf False t c c2 d mq_entry_Suc [OF wf] show ?thesis
      by (auto simp: mq_wellformed_def mq_link_tail_def Let_def)
  qed
qed

lemma mq_link_head_wellformed:
  assumes wf: "mq_wellformed mq (f # fs') qs"
  shows "mq_wellformed (mq_link_head mq f buffer sz) fs' (f # qs)"
proof -
  from wf have d: "f \<notin> set fs'" "f \<notin> set qs" "distinct fs'" "distinct qs"
    "set fs' \<inter> set qs = {}"
    and ch: "cell_chain (mq_next mq) (msg_queue_head mq) qs"
      "cell_chain (mq_next mq) (mq_next mq f) fs'"
    by (auto simp: mq_wellformed_def)
  from wf d ch mq_entry_Suc [OF wf] show ?thesis
    by (auto simp: mq_wellformed_def mq_link_head_def Let_def)
qed

lemma mq_entry_pred:
  assumes "mq_wellformed mq fs (q # qs')"
  shows "unat (mq_entry mq - 1) = length qs'"
proof -
  from assms have e: "unat (mq_entry mq) = Suc (length qs')" by (simp add: mq_wellformed_def)
  then have "mq_entry mq \<noteq> 0" by auto
  then have "unat (mq_entry mq - 1) = unat (mq_entry mq) - 1" by (rule unat_minus_one)
  with e show ?thesis by simp
qed

lemma mq_unlink_head_wellformed:
  assumes wf: "mq_wellformed mq fs (q # qs')"
  shows "mq_wellformed (mq_unlink_head mq q) (q # fs) qs'"
proof -
  from wf have d: "q \<notin> set fs" "q \<notin> set qs'" "distinct fs" "distinct qs'"
    "set fs \<inter> set qs' = {}"
    and ch: "cell_chain (mq_next mq) (msg_queue_free mq) fs"
      "cell_chain (mq_next mq) (mq_next mq q) qs'" "msg_queue_head mq = Some q"
    and t: "msg_queue_tail mq = Some (last (q # qs'))"
    by (auto simp: mq_wellformed_def)
  have l: "qs' \<noteq> [] \<Longrightarrow> last qs' \<noteq> q" using d(2) by auto
  from wf d ch t l mq_entry_pred [OF wf] show ?thesis
    by (auto simp: mq_wellformed_def mq_unlink_head_def Let_def)
qed

lemma mq_link_free_fields:
  "mq_next (mq_link_free c mq) = (mq_next mq)(c := msg_queue_free mq)"
  "msg_queue_free (mq_link_free c mq) = Some c"
  "msg_queue_head (mq_link_free c mq) = msg_queue_head mq"
  "msg_queue_tail (mq_link_free c mq) = msg_queue_tail mq"
  "mq_max_msgs (mq_link_free c mq) = mq_max_msgs mq"
  by (simp_all add: mq_link_free_def)

lemma mq_fold_link_free:
  "cell_chain (mq_next (fold mq_link_free [0..<m] mq))
     (msg_queue_free (fold mq_link_free [0..<m] mq)) (rev [0..<m] @ fs0)
   \<and> msg_queue_head (fold mq_link_free [0..<m] mq) = msg_queue_head mq
   \<and> msg_queue_tail (fold mq_link_free [0..<m] mq) = msg_queue_tail mq
   \<and> mq_max_msgs (fold mq_link_free [0..<m] mq) = mq_max_msgs mq"
  if "cell_chain (mq_next mq) (msg_queue_free mq) fs0" "\<forall>c\<in>set fs0. m \<le> c"
  using that
proof (induction m)
  case 0
  then show ?case by simp
next
  case (Suc m)
  have "\<forall>c\<in>set fs0. m \<le> c" using Suc.prems(2) by (auto dest: Suc_leD)
  from Suc.IH [OF Suc.prems(1) this] have ih: "cell_chain (mq_next (fold mq_link_free [0..<m] mq))
     (msg_queue_free (fold mq_link_free [0..<m] mq)) (rev [0..<m] @ fs0)"
    "msg_queue_head (fold mq_link_free [0..<m] mq) = msg_queue_head mq"
    "msg_queue_tail (fold mq_link_free [0..<m] mq) = msg_queue_tail mq"
    "mq_max_msgs (fold mq_link_free [0..<m] mq) = mq_max_msgs mq"
    by auto
  have nm: "m \<notin> set (rev [0..<m] @ fs0)" using Suc.prems(2) by auto
  let ?M = "fold mq_link_free [0..<m] mq"
  have f: "fold mq_link_free [0..<Suc m] mq = mq_link_free m ?M" by simp
  have r: "rev [0..<Suc m] @ fs0 = m # (rev [0..<m] @ fs0)" by simp
  have c: "cell_chain ((mq_next ?M)(m := msg_queue_free ?M)) (msg_queue_free ?M)
             (rev [0..<m] @ fs0)"
    using ih(1) by (subst cell_chain_upd [OF nm])
  show ?case
    unfolding f r mq_link_free_fields using c ih(2-4)
    by (simp only: cell_chain.simps fun_upd_same simp_thms)
qed

lemma rt_mq_create_wellformed:
  "mq_wellformed (rt_mq_create obj msg_size max_msgs flg) (rev [0..<unat max_msgs]) []"
proof -
  let ?mq1 = "(rt_ipc_object_init (obj\<lparr>flag := flg\<rparr>))
                  \<lparr>mq_msg_size := RT_ALIGN msg_size RT_ALIGN_SIZE, mq_max_msgs := max_msgs,
                   mq_payload :=
                     (\<lambda>temp. rt_malloc (mq_payload obj temp)
                               (unat (RT_ALIGN msg_size RT_ALIGN_SIZE))),
                   msg_queue_head := None, msg_queue_tail := None, msg_queue_free := None\<rparr>"
  have "cell_chain (mq_next ?mq1) (msg_queue_free ?mq1) []" by simp
  from mq_fold_link_free [OF this, of "unat max_msgs"]
  show ?thesis
    by (simp add: rt_mq_create_def Let_def mq_wellformed_def)
qed

lemma mq_wake_wellformed:
  assumes "mq_wake mq k = Return r (mq', k')"
  shows "r = RT_EOK \<and> mq_wellformed mq' fs qs = mq_wellformed mq fs qs
         \<and> mq_max_msgs mq' = mq_max_msgs mq"
  using mq_wake_fields [OF assms] by (simp add: mq_wellformed_def)

lemma rt_mq_send_preserves:
  assumes wf: "mq_wellformed mq fs qs"
    and s: "rt_mq_send mq buffer sz k = Return r (mq', k')"
  shows "mq_max_msgs mq' = mq_max_msgs mq
       \<and> (r = RT_EOK \<longrightarrow> (\<exists>f fs'. fs = f # fs' \<and> mq_wellformed mq' fs' (qs @ [f])))
       \<and> (r \<noteq> RT_EOK \<longrightarrow> mq' = mq \<and> k' = k)"
proof (cases "mq_msg_size mq < sz")
  case True
  with s show ?thesis by (simp add: rt_mq_send_def)
next
  case False
  note big = this
  show ?thesis
  proof (cases fs)
    case Nil
    with wf have "msg_queue_free mq = None" by (simp add: mq_wellformed_def)
    with s big show ?thesis by (simp add: rt_mq_send_def)
  next
    case (Cons f fs')
    with wf have fr: "msg_queue_free mq = Some f" by (simp add: mq_wellformed_def)
    have w: "mq_wake (mq_link_tail mq f buffer sz) k = Return r (mq', k')"
      using s big fr by (simp add: rt_mq_send_def)
    have "mq_max_msgs (mq_link_tail mq f buffer sz) = mq_max_msgs mq"
      by (simp add: mq_link_tail_def Let_def split: option.splits)
    with mq_wake_wellformed [OF w] mq_link_tail_wellformed [of mq f fs' qs buffer sz] wf Cons
    show ?thesis by simp
  qed
qed

lemma rt_mq_urgent_preserves:
  assumes wf: "mq_wellformed mq fs qs"
    and s: "rt_mq_urgent mq buffer sz k = Return r (mq', k')"
  shows "mq_max_msgs mq' = mq_max_msgs mq
       \<and> (r = RT_EOK \<longrightarrow> (\<exists>f fs'. fs = f # fs' \<and> mq_wellformed mq' fs' (f # qs)))
       \<and> (r \<noteq> RT_EOK \<longrightarrow> mq' = mq \<and> k' = k)"
proof (cases "mq_msg_size mq < sz")
  case True
  with s show ?thesis by (simp add: rt_mq_urgent_def)
next
  case False
  note big = this
  show ?thesis
  proof (cases fs)
    case Nil
    with wf have "msg_queue_free mq = None" by (simp add: mq_wellformed_def)
    with s big show ?thesis by (simp add: rt_mq_urgent_def)
  next
    case (Cons f fs')
    with wf have fr: "msg_queue_free mq = Some f" by (simp add: mq_wellformed_def)
    have w: "mq_wake (mq_link_head mq f buffer sz) k = Return r (mq', k')"
      using s big fr by (simp add: rt_mq_urgent_def)
    have "mq_max_msgs (mq_link_head mq f buffer sz) = mq_max_msgs mq"
      by (simp add: mq_link_head_def Let_def)
    with mq_wake_wellformed [OF w] mq_link_head_wellformed [of mq f fs' qs buffer sz] wf Cons
    show ?thesis by simp
  qed
qed

lemma mq_get_preserves:
  assumes wf: "mq_wellformed mq fs qs" and ne: "qs \<noteq> []"
  shows "\<exists>q qs' buffer'. qs = q # qs'
           \<and> mq_get mq buffer sz k = Return RT_EOK (buffer', mq_unlink_head mq q, k)
           \<and> mq_wellformed (mq_unlink_head mq q) (q # fs) qs'
           \<and> mq_max_msgs (mq_unlink_head mq q) = mq_max_msgs mq"
proof -
  from ne obtain q qs' where q: "qs = q # qs'" by (cases qs) auto
  with wf have "msg_queue_head mq = Some q" by (simp add: mq_wellformed_def)
  with mq_unlink_head_wellformed [of mq fs q qs'] wf q show ?thesis
    by (simp add: mq_get_def mq_unlink_head_def Let_def)
qed

lemma mq_suspend_fields:
  fixes mq :: rt_messagequeue
  shows "mq_next (fst (rt_ipc_object_suspend mq thread k)) = mq_next mq"
    "msg_queue_free (fst (rt_ipc_object_suspend mq thread k)) = msg_queue_free mq"
    "msg_queue_head (fst (rt_ipc_object_suspend mq thread k)) = msg_queue_head mq"
    "msg_queue_tail (fst (rt_ipc_object_suspend mq thread k)) = msg_queue_tail mq"
    "mq_entry (fst (rt_ipc_object_suspend mq thread k)) = mq_entry mq"
    "mq_max_msgs (fst (rt_ipc_object_suspend mq thread k)) = mq_max_msgs mq"
  by (simp_all add: rt_ipc_object_suspend_def Let_def split: ipc_flag.splits)

lemma mq_suspend_wellformed:
  assumes "rt_ipc_object_suspend mq thread k = (mq', k')"
  shows "mq_wellformed mq' fs qs = mq_wellformed mq fs qs \<and> mq_max_msgs mq' = mq_max_msgs mq"
proof -
  from assms have "mq' = fst (rt_ipc_object_suspend mq thread k)" by simp
  then show ?thesis by (simp add: mq_suspend_fields mq_wellformed_def)
qed

lemma rt_mq_recv_preserves:
  assumes wf: "mq_wellformed mq fs qs"
  shows "rt_mq_recv mq buffer sz timeout k \<noteq> Fault
     \<and> (\<forall>r buffer' mq' k'. rt_mq_recv mq buffer sz timeout k = Return r (buffer', mq', k') \<longrightarrow>
           mq_max_msgs mq' = mq_max_msgs mq
           \<and> (r = RT_EOK \<longrightarrow> (\<exists>q qs'. qs = q # qs' \<and> mq_wellformed mq' (q # fs) qs'))
           \<and> (r \<noteq> RT_EOK \<longrightarrow> mq' = mq))
     \<and> (\<forall>buffer' mq' k'. rt_mq_recv mq buffer sz timeout k = Blocked (buffer', mq', k') \<longrightarrow>
           mq_max_msgs mq' = mq_max_msgs mq \<and> mq_wellformed mq' fs qs)"
proof (cases "mq_entry mq = 0")
  case True
  note empty = this
  show ?thesis
  proof (cases "timeout = 0")
    case True
    with empty show ?thesis by (simp add: rt_mq_recv_def Let_def)
  next
    case False
    let ?k1 = "set_thread (rt_thread_self k) (\<lambda>th. th\<lparr>error := RT_EOK\<rparr>) k"
    obtain mq1 k2 where sus: "rt_ipc_object_suspend mq (rt_thread_self k) ?k1 = (mq1, k2)"
      by (cases "rt_ipc_object_suspend mq (rt_thread_self k) ?k1")
    from mq_suspend_wellformed [OF sus, of fs qs] wf
    have "mq_wellformed mq1 fs qs" "mq_max_msgs mq1 = mq_max_msgs mq" by simp_all
    with empty False sus show ?thesis by (simp add: rt_mq_recv_def Let_def)
  qed
next
  case False
  with wf have "qs \<noteq> []" by (auto simp: mq_wellformed_def unat_0_iff)
  from mq_get_preserves [OF wf this, of buffer sz k]
  obtain q qs' buffer' where
    g: "qs = q # qs'" "mq_get mq buffer sz k = Return RT_EOK (buffer', mq_unlink_head mq q, k)"
      "mq_wellformed (mq_unlink_head mq q) (q # fs) qs'"
      "mq_max_msgs (mq_unlink_head mq q) = mq_max_msgs mq"
    by blast
  have "rt_mq_recv mq buffer sz timeout k = Return RT_EOK (buffer', mq_unlink_head mq q, k)"
    using False g(2) by (simp add: rt_mq_recv_def)
  with g show ?thesis by simp
qed

lemma rt_mq_recv_resumed_preserves:
  assumes wf: "mq_wellformed mq fs qs"
    and r: "rt_mq_recv_resumed mq buffer sz thread k = Return r (buffer', mq', k')"
  shows "mq_max_msgs mq' = mq_max_msgs mq
       \<and> (r = RT_EOK \<longrightarrow> (\<exists>q qs'. qs = q # qs' \<and> mq_wellformed mq' (q # fs) qs'))
       \<and> (r \<noteq> RT_EOK \<longrightarrow> mq_wellformed mq' fs qs)"
proof (cases "error (threads k thread) = RT_EOK")
  case True
  with r have g: "mq_get mq buffer sz k = Return r (buffer', mq', k')"
    by (simp add: rt_mq_recv_resumed_def)
  then have "qs \<noteq> []" using wf by (auto simp: mq_get_def mq_wellformed_def split: option.splits)
  from mq_get_preserves [OF wf this, of buffer sz k] g show ?thesis by auto
next
  case False
  with r wf show ?thesis
    by (auto simp: rt_mq_recv_resumed_def rt_ipc_object_decrease_def mq_wellformed_def)
qed

lemma mq_wake_returns:
  assumes "wait_queue_counted mq"
  shows "\<exists>s. mq_wake mq k = Return RT_EOK s"
proof (cases "0 < suspend_thread_count mq")
  case True
  from ipc_object_resume_Some [OF counted_nonempty [OF assms True], of k]
  obtain s where "rt_ipc_object_resume mq k = Some s" by blast
  with True show ?thesis by (simp add: mq_wake_def)
next
  case False
  then show ?thesis by (simp add: mq_wake_def)
qed

lemma rt_mq_send_returns:
  assumes "wait_queue_counted mq"
  shows "(\<exists>r s. rt_mq_send mq buffer sz k = Return r s)
       \<and> (\<exists>r s. rt_mq_urgent mq buffer sz k = Return r s)"
proof (cases "mq_msg_size mq < sz \<or> msg_queue_free mq = None")
  case True
  then show ?thesis by (auto simp: rt_mq_send_def rt_mq_urgent_def)
next
  case False
  then obtain f where f: "\<not> mq_msg_size mq < sz" "msg_queue_free mq = Some f" by auto
  have "wait_queue_counted (mq_link_tail mq f buffer sz)"
    "wait_queue_counted (mq_link_head mq f buffer sz)"
    using assms
    by (simp_all add: wait_queue_counted_def mq_link_tail_def mq_link_head_def Let_def
        split: option.splits)
  from mq_wake_returns [OF this(1), of k] mq_wake_returns [OF this(2), of k] f
  show ?thesis
    by (simp add: rt_mq_send_def rt_mq_urgent_def) blast
qed

lemma rt_mq_recv_ok:
  assumes "mq_wellformed mq fs (q # qs')"
  shows "rt_mq_recv mq buffer sz timeout k =
           Return RT_EOK
             (rt_memcpy buffer (mq_payload mq q)
                (unat (if mq_msg_size mq < sz then mq_msg_size mq else sz)),
              mq_unlink_head mq q, k)"
proof -
  from assms have "mq_entry mq \<noteq> 0" "msg_queue_head mq = Some q"
    by (auto simp: mq_wellformed_def)
  then show ?thesis by (simp add: rt_mq_recv_def mq_get_def)
qed

lemma rt_mq_create_max_msgs:
  "mq_max_msgs (rt_mq_create obj msg_size max_msgs flg) = max_msgs"
proof -
  let ?mq1 = "(rt_ipc_object_init (obj\<lparr>flag := flg\<rparr>))
                  \<lparr>mq_msg_size := RT_ALIGN msg_size RT_ALIGN_SIZE, mq_max_msgs := max_msgs,
                   mq_payload :=
                     (\<lambda>temp. rt_malloc (mq_payload obj temp)
                               (unat (RT_ALIGN msg_size RT_ALIGN_SIZE))),
                   msg_queue_head := None, msg_queue_tail := None, msg_queue_free := None\<rparr>"
  have "cell_chain (mq_next ?mq1) (msg_queue_free ?mq1) []" by simp
  from mq_fold_link_free [OF this, of "unat max_msgs"]
  show ?thesis
    by (simp add: rt_mq_create_def Let_def)
qed

lemma mq_fold_link_free_frame:
  "mq_msg_size (fold mq_link_free xs mq) = mq_msg_size mq
   \<and> suspend_thread_count (fold mq_link_free xs mq) = suspend_thread_count mq
   \<and> suspend_thread (fold mq_link_free xs mq) = suspend_thread mq
   \<and> mq_payload (fold mq_link_free xs mq) = mq_payload mq"
  by (induction xs arbitrary: mq) (simp_all add: mq_link_free_def)

lemma rt_memcpy_length:
  "n \<le> length src \<Longrightarrow> n \<le> length dst \<Longrightarrow> length (rt_memcpy dst src n) = length dst"
  by (simp add: rt_memcpy_def)

lemma rt_mq_create_cell_size:
  "length (mq_payload (rt_mq_create obj msg_size max_msgs flg) temp)
     = unat (RT_ALIGN msg_size RT_ALIGN_SIZE)"
  by (simp add: rt_mq_create_def Let_def mq_fold_link_free_frame rt_malloc_def)

lemma mq_link_cell_size:
  assumes "\<forall>c. length (mq_payload mq c) = unat (mq_msg_size mq)"
    "\<not> mq_msg_size mq < sz" "unat sz \<le> length buffer"
  shows "length (mq_payload (mq_link_tail mq msg buffer sz) c) = unat (mq_msg_size mq)"
    "length (mq_payload (mq_link_head mq msg buffer sz) c) = unat (mq_msg_size mq)"
  using assms
  by (simp_all add: mq_link_tail_def mq_link_head_def Let_def rt_memcpy_def word_less_nat_alt
      split: option.splits)

lemma mq_get_buffer_length:
  assumes "length (mq_payload mq msg) = unat (mq_msg_size mq)" "unat sz \<le> length buffer"
    "msg_queue_head mq = Some msg"
  shows "\<exists>buffer' s. mq_get mq buffer sz k = Return RT_EOK (buffer', s)
           \<and> length buffer' = length buffer"
  using assms
  by (auto simp: mq_get_def rt_memcpy_def word_less_nat_alt)

lemma rt_mq_create_frame:
  "mq_msg_size (rt_mq_create obj msg_size max_msgs flg) = RT_ALIGN msg_size RT_ALIGN_SIZE"
  "suspend_thread_count (rt_mq_create obj msg_size max_msgs flg) = 0"
  "suspend_thread (rt_mq_create obj msg_size max_msgs flg) = []"
  by (simp_all add: rt_mq_create_def Let_def mq_fold_link_free_frame rt_ipc_object_init_def)

lemma mq_suspend_frame:
  fixes mq :: rt_messagequeue
  shows "mq_msg_size (fst (rt_ipc_object_suspend mq thread k)) = mq_msg_size mq"
    "suspend_thread_count (fst (rt_ipc_object_suspend mq thread k)) = suspend_thread_count mq + 1"
    "error (threads (snd (rt_ipc_object_suspend mq thread k)) t) = error (threads k t)"
  by (simp_all add: rt_ipc_object_suspend_def Let_def rt_thread_suspend_def set_thread_def
      rt_schedule_remove_thread_def split: ipc_flag.splits)

lemma mq_wake_error:
  assumes "mq_wake mq k = Return r (mq', k')"
  shows "error (threads k' t) = error (threads k t)"
  using assms
  by (auto simp: mq_wake_def rt_ipc_object_resume_def rt_thread_resume_def tlist_remove_def
      rt_schedule_insert_thread_def set_thread_def Let_def
      split: if_splits option.splits list.splits)

lemma rt_mq_recv_blocks:
  assumes "mq_entry mq = 0" "timeout \<noteq> 0" "\<not> 0 <s timeout"
  shows "rt_mq_recv mq buffer sz timeout k =
           Blocked (buffer,
             fst (rt_ipc_object_suspend mq (rt_thread_self k)
                    (set_thread (rt_thread_self k) (\<lambda>th. th\<lparr>error := RT_EOK\<rparr>) k)),
             snd (rt_ipc_object_suspend mq (rt_thread_self k)
                    (set_thread (rt_thread_self k) (\<lambda>th. th\<lparr>error := RT_EOK\<rparr>) k)))"
  using assms by (simp add: rt_mq_recv_def Let_def split_beta)

lemma rt_mq_recv_resumed_fault:
  assumes "mq_wellformed mq fs qs"
  shows "(rt_mq_recv_resumed mq buffer sz thread k = Fault)
           = (error (threads k thread) = RT_EOK \<and> qs = [])"
proof (cases qs)
  case Nil
  with assms have "msg_queue_head mq = None" by (simp add: mq_wellformed_def)
  with Nil show ?thesis by (simp add: rt_mq_recv_resumed_def mq_get_def)
next
  case (Cons q qs')
  with assms have "msg_queue_head mq = Some q" by (simp add: mq_wellformed_def)
  with Cons show ?thesis by (simp add: rt_mq_recv_resumed_def mq_get_def)
qed

text \<open>
  C9. \<open>rt_mq_create\<close> puts every cell on the free list, and every call of \<open>rt_mq_send\<close>,
  \<open>rt_mq_urgent\<close> and \<open>rt_mq_recv\<close> that returns leaves every cell on exactly one of the
  free list and the FIFO, with \<open>entry\<close> the length of the FIFO and \<open>max_msgs\<close> unchanged
  (\<open>rt_mq_create_wellformed\<close>, \<open>rt_mq_send_preserves\<close>, \<open>rt_mq_urgent_preserves\<close>,
  \<open>rt_mq_recv_preserves\<close>, \<open>rt_mq_recv_resumed_preserves\<close>, \<open>mq_wellformed_count\<close>). The
  part of \<open>rt_mq_recv\<close> after \<open>rt_schedule()\<close> does not test \<open>entry\<close> again, as the entry
  of the function does: a receiver woken by a send finds the queue empty when another
  thread has received the message in between, and takes the head cell all the same
  (\<open>rt_mq_recv_resumed_fault\<close>). In the run below thread 2 blocks in \<open>rt_mq_recv\<close> on an
  empty queue of two cells; thread 1, of the same priority, sends a message, which makes
  thread 2 ready, and receives that message itself without waiting; thread 2 then goes on
  in \<open>rt_mq_recv\<close> with the error RT_EOK, \<open>entry\<close> 0 and \<open>msg_queue_head\<close> RT_NULL, and
  reads \<open>msg->next\<close> through RT_NULL.
\<close>

theorem rt_mq_recv_woken_on_empty_queue:
  "\<exists>mq1 k1 mq2 k2 b mq3.
     rt_mq_recv (rt_mq_create mq_blank 4 2 RT_IPC_FLAG_FIFO) [0, 0, 0] 3 (- 1) kernel_peers
       = Blocked ([0, 0, 0], mq1, k1)
     \<and> rt_mq_send mq1 [1, 2, 3] 3 (running 1 k1) = Return RT_EOK (mq2, k2)
     \<and> mq_entry mq2 = 1
     \<and> rt_mq_recv mq2 [0, 0, 0] 3 0 k2 = Return RT_EOK (b, mq3, k2)
     \<and> mq_entry mq3 = 0 \<and> msg_queue_head mq3 = None
     \<and> error (threads (running 2 k2) 2) = RT_EOK
     \<and> rt_mq_recv_resumed mq3 [0, 0, 0] 3 2 (running 2 k2) = Fault"
proof -
  let ?M0 = "rt_mq_create mq_blank 4 2 RT_IPC_FLAG_FIFO"
  let ?K0 = "set_thread 2 (\<lambda>th. th\<lparr>error := RT_EOK\<rparr>) kernel_peers"
  let ?M1 = "fst (rt_ipc_object_suspend ?M0 2 ?K0)"
  let ?K1 = "snd (rt_ipc_object_suspend ?M0 2 ?K0)"
  have "[0..<2] = [0, Suc 0]" by (simp add: upt_conv_Cons)
  then have r: "rev [0..<unat (2 :: 32 word)] = [1, 0]" by simp
  have w0: "mq_wellformed ?M0 [1, 0] []"
    using rt_mq_create_wellformed [of mq_blank 4 2 RT_IPC_FLAG_FIFO] unfolding r .
  then have e0: "mq_entry ?M0 = 0" by (simp add: mq_wellformed_def unat_0_iff)
  have self: "rt_thread_self kernel_peers = 2" by (simp add: rt_thread_self_def kernel_peers_def)
  have s1: "rt_mq_recv ?M0 [0, 0, 0] 3 (- 1) kernel_peers = Blocked ([0, 0, 0], ?M1, ?K1)"
    using rt_mq_recv_blocks [OF e0, of "- 1" "[0, 0, 0]" 3 kernel_peers]
    by (simp add: self word_sless_alt)
  obtain m1 k1 where sus: "rt_ipc_object_suspend ?M0 2 ?K0 = (m1, k1)"
    by (cases "rt_ipc_object_suspend ?M0 2 ?K0")
  from mq_suspend_wellformed [OF sus, of "[1, 0]" "[]"] w0 sus
  have w1: "mq_wellformed ?M1 [1, 0] []" by simp
  have "RT_ALIGN 4 RT_ALIGN_SIZE = 4" by (simp add: RT_ALIGN_def RT_ALIGN_SIZE_def)
  then have sz1: "\<not> mq_msg_size ?M1 < 3" by (simp add: mq_suspend_frame rt_mq_create_frame)
  have c1: "wait_queue_counted ?M1"
    by (simp add: wait_queue_counted_def mq_suspend_frame rt_mq_create_frame
        rt_ipc_object_suspend_appends)
  have fr1: "msg_queue_free ?M1 = Some 1" using w1 by (simp add: mq_wellformed_def)
  have cl: "wait_queue_counted (mq_link_tail ?M1 1 [1, 2, 3] 3)"
    using c1 by (simp add: wait_queue_counted_def mq_link_tail_def Let_def split: option.splits)
  from mq_wake_returns [OF cl, of "running 1 ?K1"]
  obtain mq2 k2 where wk: "mq_wake (mq_link_tail ?M1 1 [1, 2, 3] 3) (running 1 ?K1)
      = Return RT_EOK (mq2, k2)"
    by (cases "mq_wake (mq_link_tail ?M1 1 [1, 2, 3] 3) (running 1 ?K1)") auto
  have s2: "rt_mq_send ?M1 [1, 2, 3] 3 (running 1 ?K1) = Return RT_EOK (mq2, k2)"
    using wk sz1 fr1 by (simp add: rt_mq_send_def)
  from rt_mq_send_preserves [OF w1 s2] have w2: "mq_wellformed mq2 [0] [1]" by simp
  then have "unat (mq_entry mq2) = unat (1 :: 32 word)" by (simp add: mq_wellformed_def)
  then have e2: "mq_entry mq2 = 1" by (simp only: word_unat_eq_iff)
  have "error (threads k2 2) = error (threads (running 1 ?K1) 2)"
    by (rule mq_wake_error [OF wk])
  also have "\<dots> = RT_EOK"
    by (simp add: running_def mq_suspend_frame set_thread_def)
  finally have er: "error (threads (running 2 k2) 2) = RT_EOK" by (simp add: running_def)
  let ?M3 = "mq_unlink_head mq2 1"
  from rt_mq_recv_ok [OF w2, of "[0, 0, 0]" 3 0 k2]
  obtain b where s3: "rt_mq_recv mq2 [0, 0, 0] 3 0 k2 = Return RT_EOK (b, ?M3, k2)" by blast
  from mq_unlink_head_wellformed [OF w2] have w3: "mq_wellformed ?M3 [1, 0] []" .
  then have e3: "mq_entry ?M3 = 0" "msg_queue_head ?M3 = None"
    by (simp_all add: mq_wellformed_def unat_0_iff)
  have s4: "rt_mq_recv_resumed ?M3 [0, 0, 0] 3 2 (running 2 k2) = Fault"
    using rt_mq_recv_resumed_fault [OF w3, of "[0, 0, 0]" 3 2 "running 2 k2"] er by simp
  from s1 s2 e2 s3 e3 er s4 show ?thesis by blast
qed

end
